theory Spec2Isabelle
  imports Complex_Main "HOL-Library.Sublist" "HOL-Library.Log_Nat"
begin

section \<open>Data model (src/types/index.ts)\<close>

text \<open>
  Timestamps (\<^verbatim>\<open>Date\<close>, Firestore \<^verbatim>\<open>Timestamp\<close>) are natural numbers (milliseconds).
  An optional field \<^verbatim>\<open>f?: T\<close> is a \<open>T option\<close>; Firestore's \<^verbatim>\<open>null\<close> and a missing
  field are both \<open>None\<close>. Field names carry a short prefix because several interfaces
  share the names \<^verbatim>\<open>id\<close>, \<^verbatim>\<open>status\<close>, \<^verbatim>\<open>niche\<close> and \<^verbatim>\<open>error\<close>.
\<close>

datatype platform = youtube | instagram | tiktok

datatype post_status = post_pending | post_posted | post_failed

datatype video_status = video_generating | video_ready | video_posted | video_failed

datatype job_type = job_generate | job_post | job_analytics

datatype job_status = job_queued | job_running | job_completed | job_failed

datatype content_style = educational | motivational | entertainment | news

datatype topic_source = google_trends | twitter | manual

datatype engagement = low | medium | high

record PlatformPost =
  pp_platform :: platform
  pp_postId :: "string option"
  pp_postedAt :: "nat option"
  pp_status :: post_status
  pp_error :: "string option"
  pp_views :: "nat option"
  pp_likes :: "nat option"
  pp_comments :: "nat option"

record VideoMetadata =
  vm_id :: string
  vm_niche :: string
  vm_prompt :: string
  vm_videoUrl :: string
  vm_storagePath :: string
  vm_duration :: nat
  vm_createdAt :: nat
  vm_status :: video_status
  vm_platforms :: "PlatformPost list"

record PostingSchedule =
  timesPerDay :: nat
  preferredTimes :: "string list"
  timezone :: string

record youtube_account =
  channelId :: string
  refreshToken :: string

record instagram_account =
  accountId :: string
  ig_accessToken :: string

record tiktok_account =
  username :: string
  tt_accessToken :: "string option"

record SocialAccountConfig =
  sa_youtube :: "youtube_account option"
  sa_instagram :: "instagram_account option"
  sa_tiktok :: "tiktok_account option"

record ContentNiche =
  cn_id :: string
  cn_name :: string
  cn_description :: string
  cn_keywords :: "string list"
  cn_promptTemplate :: string
  cn_targetAudience :: string
  cn_postingSchedule :: PostingSchedule
  cn_socialAccounts :: SocialAccountConfig

record TrendingTopic =
  tr_topic :: string
  tr_score :: nat
  tr_source :: topic_source
  tr_relatedKeywords :: "string list"
  tr_fetchedAt :: nat

record PromptGenerationRequest =
  pr_niche :: string
  pr_trendingTopics :: "TrendingTopic list option"
  pr_previousPrompts :: "string list option"
  pr_style :: "content_style option"

record PromptGenerationResponse =
  pg_prompt :: string
  pg_description :: string
  pg_suggestedHashtags :: "string list"
  pg_estimatedEngagement :: engagement

record VideoGenerationRequest =
  vr_prompt :: string
  vr_niche :: string

record VideoGenerationResponse =
  vg_videoUrl :: string
  vg_duration :: nat

record WorkflowJob =
  wj_id :: string
  wj_type :: job_type
  wj_status :: job_status
  wj_niche :: string
  wj_videoId :: "string option"
  wj_createdAt :: nat
  wj_startedAt :: "nat option"
  wj_completedAt :: "nat option"
  wj_error :: "string option"
  wj_retryCount :: nat

text \<open>A thrown value. Every throw in the modelled code is an \<^verbatim>\<open>Error\<close> with a message.\<close>

datatype js_error = Error (message: string)

text \<open>JavaScript truthiness of an optional string: absent and the empty string are falsy.\<close>

definition truthy :: "string option \<Rightarrow> bool" where
  "truthy s = (case s of None \<Rightarrow> False | Some v \<Rightarrow> v \<noteq> [])"

section \<open>Style inference (workflow-orchestrator.ts, getStyleFromNiche)\<close>

text \<open>
  Strings are \<open>char list\<close>. \<^verbatim>\<open>toLowerCase\<close> maps \<^verbatim>\<open>A\<close>..\<^verbatim>\<open>Z\<close> to \<^verbatim>\<open>a\<close>..\<^verbatim>\<open>z\<close> and leaves
  every other character as it is, which is what JavaScript does on ASCII text.
  \<^verbatim>\<open>s.includes(k)\<close> searches \<open>k\<close> at every position of \<open>s\<close>.
\<close>

definition toLowerCaseChar :: "char \<Rightarrow> char" where
  "toLowerCaseChar c =
     (case map_of (zip ''ABCDEFGHIJKLMNOPQRSTUVWXYZ'' ''abcdefghijklmnopqrstuvwxyz'') c of
        Some l \<Rightarrow> l
      | None \<Rightarrow> c)"

definition toLowerCase :: "string \<Rightarrow> string" where
  "toLowerCase s = map toLowerCaseChar s"

fun startsWith :: "string \<Rightarrow> string \<Rightarrow> bool" where
  "startsWith s [] = True"
| "startsWith [] (k # ks) = False"
| "startsWith (c # cs) (k # ks) = (c = k \<and> startsWith cs ks)"

fun includesStr :: "string \<Rightarrow> string \<Rightarrow> bool" where
  "includesStr [] k = (k = [])"
| "includesStr (c # cs) k = (startsWith (c # cs) k \<or> includesStr cs k)"

definition getStyleFromNiche :: "ContentNiche \<Rightarrow> content_style" where
  "getStyleFromNiche niche =
     (let nicheNameLower = toLowerCase (cn_name niche) in
      if includesStr nicheNameLower ''education'' \<or> includesStr nicheNameLower ''learn''
           \<or> includesStr nicheNameLower ''tutorial''
      then educational
      else if includesStr nicheNameLower ''motivation'' \<or> includesStr nicheNameLower ''inspire''
           \<or> includesStr nicheNameLower ''success''
      then motivational
      else if includesStr nicheNameLower ''news'' \<or> includesStr nicheNameLower ''current''
           \<or> includesStr nicheNameLower ''trending''
      then news
      else entertainment)"

text \<open>
  The specification's wording of style inference: an ordered table of buckets, the
  first bucket one of whose keywords is a substring of the lower-cased name wins, and
  entertainment is the default. \<open>sublist k s\<close> is \<open>\<exists>ps ss. s = ps @ k @ ss\<close>.
\<close>

definition styleBuckets :: "(string list \<times> content_style) list" where
  "styleBuckets =
     [([''education'', ''learn'', ''tutorial''], educational),
      ([''motivation'', ''inspire'', ''success''], motivational),
      ([''news'', ''current'', ''trending''], news)]"

definition style_spec :: "string \<Rightarrow> content_style" where
  "style_spec nicheName =
     (case find (\<lambda>b. list_ex (\<lambda>k. sublist k (toLowerCase nicheName)) (fst b)) styleBuckets of
        Some b \<Rightarrow> snd b
      | None \<Rightarrow> entertainment)"

section \<open>Engagement rate (functions/analytics-collector.ts, calculateEngagementRate)\<close>

text \<open>
  A JavaScript \<^verbatim>\<open>number\<close> is an IEEE-754 binary64 value. A finite one is modelled by the
  rational it denotes, and each arithmetic operation rounds the exact result to 53
  significant bits, ties to even (\<open>fl\<close>). The exponent range is not modelled (no
  overflow to \<^verbatim>\<open>Infinity\<close> and no subnormal numbers): the view and interaction counts
  stay far from overflow and underflow.
\<close>

definition exponentOf :: "rat \<Rightarrow> int" where
  \<comment> \<open>\<open>\<lfloor>log\<^sub>2 x\<rfloor>\<close> for \<open>0 < x\<close>\<close>
  "exponentOf x =
     (if 1 \<le> x then int (floorlog 2 (nat \<lfloor>x\<rfloor>)) - 1
      else - int (floorlog 2 (nat (\<lceil>1 / x\<rceil> - 1))))"

definition roundTiesToEven :: "rat \<Rightarrow> int" where
  "roundTiesToEven q =
     (let f = \<lfloor>q\<rfloor>; r = q - of_int f
      in if r < 1 / 2 then f else if 1 / 2 < r then f + 1 else if even f then f else f + 1)"

definition fl :: "rat \<Rightarrow> rat" where
  "fl x =
     (if x = 0 then 0
      else let e = exponentOf \<bar>x\<bar> - 52
           in sgn x * of_int (roundTiesToEven (\<bar>x\<bar> / 2 powi e)) * 2 powi e)"

definition js_add :: "rat \<Rightarrow> rat \<Rightarrow> rat" where
  "js_add a b = fl (a + b)"

definition js_div :: "rat \<Rightarrow> rat \<Rightarrow> rat" where
  "js_div a b = fl (a / b)"

definition js_mul :: "rat \<Rightarrow> rat \<Rightarrow> rat" where
  "js_mul a b = fl (a * b)"

text \<open>
  The division is reached only with \<open>views \<noteq> 0\<close>, so the result of dividing by zero
  (\<^verbatim>\<open>Infinity\<close> or \<^verbatim>\<open>NaN\<close>) needs no model. \<^verbatim>\<open>shares\<close> defaults to 0 at the call site.
\<close>

definition calculateEngagementRate :: "rat \<Rightarrow> rat \<Rightarrow> rat \<Rightarrow> rat \<Rightarrow> rat" where
  "calculateEngagementRate views likes comments shares =
     (if views = 0 then 0
      else let totalEngagements = js_add (js_add likes comments) shares
           in js_mul (js_div totalEngagements views) 100)"

text \<open>The specification's formula, evaluated left to right in the same arithmetic.\<close>

definition engagementRate_spec :: "rat \<Rightarrow> rat \<Rightarrow> rat \<Rightarrow> rat \<Rightarrow> rat" where
  "engagementRate_spec views likes comments shares =
     js_mul (js_div (js_add (js_add likes comments) shares) views) 100"

section \<open>Job status updates (lib/database.ts, updateJobStatus)\<close>

text \<open>
  \<^verbatim>\<open>updates\<close> is the object handed to Firestore's \<^verbatim>\<open>update\<close>: a key that is not set is
  \<open>None\<close>. The object is created with the key \<^verbatim>\<open>status\<close> only, and the guard
  \<^verbatim>\<open>!updates.startedAt\<close> reads that fresh object, not the stored job.
\<close>

record job_updates =
  u_status :: job_status
  u_startedAt :: "nat option"
  u_completedAt :: "nat option"
  u_error :: "string option"

definition buildUpdates :: "job_status \<Rightarrow> string option \<Rightarrow> nat \<Rightarrow> job_updates" where
  "buildUpdates status error now =
     (let updates = \<lparr>u_status = status, u_startedAt = None, u_completedAt = None, u_error = None\<rparr>;
          updates = (if status = job_running \<and> u_startedAt updates = None
                     then updates\<lparr>u_startedAt := Some now\<rparr> else updates);
          updates = (if status = job_completed \<or> status = job_failed
                     then updates\<lparr>u_completedAt := Some now\<rparr> else updates);
          updates = (if truthy error then updates\<lparr>u_error := error\<rparr> else updates)
      in updates)"

text \<open>Firestore's \<^verbatim>\<open>update\<close> overwrites exactly the keys present in \<^verbatim>\<open>updates\<close>.\<close>

definition applyUpdates :: "WorkflowJob \<Rightarrow> job_updates \<Rightarrow> WorkflowJob" where
  "applyUpdates job updates =
     job\<lparr>wj_status := u_status updates,
         wj_startedAt := (case u_startedAt updates of None \<Rightarrow> wj_startedAt job | Some t \<Rightarrow> Some t),
         wj_completedAt := (case u_completedAt updates of None \<Rightarrow> wj_completedAt job | Some t \<Rightarrow> Some t),
         wj_error := (case u_error updates of None \<Rightarrow> wj_error job | Some m \<Rightarrow> Some m)\<rparr>"

text \<open>One status update on a stored job document, and a sequence of them.\<close>

definition updateJobDoc :: "WorkflowJob \<Rightarrow> job_status \<times> string option \<times> nat \<Rightarrow> WorkflowJob" where
  "updateJobDoc job u = (case u of (status, error, now) \<Rightarrow> applyUpdates job (buildUpdates status error now))"

definition updateJobDocs :: "WorkflowJob \<Rightarrow> (job_status \<times> string option \<times> nat) list \<Rightarrow> WorkflowJob" where
  "updateJobDocs job us = foldl updateJobDoc job us"

definition terminal :: "job_status \<Rightarrow> bool" where
  "terminal s = (s = job_completed \<or> s = job_failed)"

section \<open>Polling loops (services/video-generator.ts)\<close>

text \<open>
  The status endpoint is the environment: \<open>get k\<close> is the outcome of the \<open>k\<close>-th
  request of the loop (counting from 0), either a thrown error or the response data.
  The loop functions return what the loop leaves in \<^verbatim>\<open>videoUrl\<close> (or the error it
  throws) together with the number of status requests made.
\<close>

record fal_data =
  fal_status :: string
  fal_video_url :: "string option"

record replicate_data =
  rep_status :: string
  rep_output :: "string option"

definition maxAttempts :: nat where
  "maxAttempts = 60"

function falLoop :: "(nat \<Rightarrow> js_error + fal_data) \<Rightarrow> nat \<Rightarrow> nat \<Rightarrow> (js_error + string option) \<times> nat" where
  "falLoop get attempts polls =
     (if attempts < maxAttempts then
        (case get polls of
           Inl e \<Rightarrow> (Inl e, Suc polls)
         | Inr d \<Rightarrow>
             if fal_status d = ''COMPLETED'' then (Inr (fal_video_url d), Suc polls)
             else if fal_status d = ''FAILED'' then (Inl (Error ''Video generation failed''), Suc polls)
             else falLoop get (Suc attempts) (Suc polls))
      else (Inr None, polls))"
  by pat_completeness auto
termination
  by (relation "measure (\<lambda>(get, attempts, polls). maxAttempts - attempts)") auto

definition falPoll :: "(nat \<Rightarrow> js_error + fal_data) \<Rightarrow> (js_error + string) \<times> nat" where
  "falPoll get =
     (case falLoop get 0 0 of
        (Inl e, n) \<Rightarrow> (Inl e, n)
      | (Inr None, n) \<Rightarrow> (Inl (Error ''Video generation timed out''), n)
      | (Inr (Some videoUrl), n) \<Rightarrow>
          if \<not> truthy (Some videoUrl) then (Inl (Error ''Video generation timed out''), n)
          else (Inr videoUrl, n))"

function replicateLoop :: "(nat \<Rightarrow> js_error + replicate_data) \<Rightarrow> nat \<Rightarrow> nat \<Rightarrow> (js_error + string option) \<times> nat" where
  "replicateLoop get attempts polls =
     (if attempts < maxAttempts then
        (case get polls of
           Inl e \<Rightarrow> (Inl e, Suc polls)
         | Inr d \<Rightarrow>
             if rep_status d = ''succeeded'' then (Inr (rep_output d), Suc polls)
             else if rep_status d = ''failed'' \<or> rep_status d = ''canceled''
             then (Inl (Error (''Video generation '' @ rep_status d)), Suc polls)
             else replicateLoop get (Suc attempts) (Suc polls))
      else (Inr None, polls))"
  by pat_completeness auto
termination
  by (relation "measure (\<lambda>(get, attempts, polls). maxAttempts - attempts)") auto

definition replicatePoll :: "(nat \<Rightarrow> js_error + replicate_data) \<Rightarrow> (js_error + string) \<times> nat" where
  "replicatePoll get =
     (case replicateLoop get 0 0 of
        (Inl e, n) \<Rightarrow> (Inl e, n)
      | (Inr None, n) \<Rightarrow> (Inl (Error ''Video generation timed out''), n)
      | (Inr (Some videoUrl), n) \<Rightarrow>
          if \<not> truthy (Some videoUrl) then (Inl (Error ''Video generation timed out''), n)
          else (Inr videoUrl, n))"

text \<open>Classification of one status response, used to state what the loops do.\<close>

definition falPending :: "js_error + fal_data \<Rightarrow> bool" where
  "falPending r =
     (case r of Inl e \<Rightarrow> False
      | Inr d \<Rightarrow> fal_status d \<noteq> ''COMPLETED'' \<and> fal_status d \<noteq> ''FAILED'')"

definition falCompleted :: "js_error + fal_data \<Rightarrow> bool" where
  "falCompleted r = (case r of Inl e \<Rightarrow> False | Inr d \<Rightarrow> fal_status d = ''COMPLETED'')"

definition replicatePending :: "js_error + replicate_data \<Rightarrow> bool" where
  "replicatePending r =
     (case r of Inl e \<Rightarrow> False
      | Inr d \<Rightarrow> rep_status d \<noteq> ''succeeded'' \<and> rep_status d \<noteq> ''failed''
                 \<and> rep_status d \<noteq> ''canceled'')"

definition replicateSucceeded :: "js_error + replicate_data \<Rightarrow> bool" where
  "replicateSucceeded r = (case r of Inl e \<Rightarrow> False | Inr d \<Rightarrow> rep_status d = ''succeeded'')"

section \<open>Record store and environment\<close>

text \<open>
  The record store (lib/database.ts over Firestore) is a state: one map per collection,
  from document id to document. \<open>jobLog\<close> is an observation trace: every successful
  write of a job's status is appended to it, in order.

  Everything outside the orchestrator is the environment \<open>env\<close>: the outcome of each
  adapter call (a thrown error or a value), the ids drawn from Firestore and from
  \<^verbatim>\<open>uuidv4\<close>, the clock, and the faults of the store. A store call is identified by
  its call site (\<open>db_call\<close>); every site is reached at most once in a run.
  \<open>dbFault env c = Some e\<close> means that the call at site \<open>c\<close> throws \<open>e\<close> and writes
  nothing, and \<open>clockAt env c\<close> is the time read at (or just before) that call.
\<close>

type_synonym buffer = "nat list"

datatype db_call =
    CreateJob
  | UpdateJobStatus job_status
  | SaveTrendingTopics
  | GetVideosByNiche
  | SaveVideoMetadata "platform option"
  | GetVideoMetadata platform
  | UpdateVideoStatus
  | GetJob
  | GetContentNiche

record world =
  jobs :: "string \<rightharpoonup> WorkflowJob"
  videos :: "string \<rightharpoonup> VideoMetadata"
  niches :: "string \<rightharpoonup> ContentNiche"
  trending :: "TrendingTopic list"
  jobLog :: "(string \<times> job_status) list"

record env =
  dbFault :: "db_call \<Rightarrow> js_error option"
  clockAt :: "db_call \<Rightarrow> nat"
  newJobId :: string
  uuidv4 :: string
  getTrendingForNiche :: "string \<Rightarrow> string list \<Rightarrow> js_error + TrendingTopic list"
  queryVideosByNiche :: "(string \<rightharpoonup> VideoMetadata) \<Rightarrow> string \<Rightarrow> nat \<Rightarrow> VideoMetadata list"
  generatePrompt :: "PromptGenerationRequest \<Rightarrow> js_error + PromptGenerationResponse"
  generateVideo :: "VideoGenerationRequest \<Rightarrow> js_error + VideoGenerationResponse"
  downloadVideo :: "string \<Rightarrow> js_error + buffer"
  uploadVideo :: "buffer \<Rightarrow> string \<Rightarrow> string \<Rightarrow> js_error + string \<times> string"
  setCredentials :: "string \<Rightarrow> js_error + unit"
  uploadShortFromBuffer :: "buffer \<Rightarrow> string \<Rightarrow> string \<Rightarrow> string list \<Rightarrow> js_error + string"
  postReel :: "string \<Rightarrow> string \<Rightarrow> string \<Rightarrow> string \<Rightarrow> js_error + string"
  postVideo :: "string \<Rightarrow> buffer \<Rightarrow> string \<Rightarrow> js_error + string"

text \<open>
  A computation of the orchestrator takes the store and returns the new store with
  either the thrown error or the value. \<open>andThen\<close> is sequencing with \<^verbatim>\<open>await\<close>: an
  error skips the rest; \<open>lift\<close> is a call that does not touch the store.
\<close>

definition andThen ::
  "world \<times> (js_error + 'a) \<Rightarrow> ('a \<Rightarrow> world \<Rightarrow> world \<times> (js_error + 'b)) \<Rightarrow> world \<times> (js_error + 'b)" where
  "andThen r f = (case r of (w, Inl e) \<Rightarrow> (w, Inl e) | (w, Inr a) \<Rightarrow> f a w)"

definition lift :: "js_error + 'a \<Rightarrow> world \<Rightarrow> world \<times> (js_error + 'a)" where
  "lift r w = (w, r)"

subsection \<open>lib/database.ts\<close>

definition saveVideoMetadata ::
  "env \<Rightarrow> platform option \<Rightarrow> VideoMetadata \<Rightarrow> world \<Rightarrow> world \<times> (js_error + unit)" where
  "saveVideoMetadata env site video w =
     (case dbFault env (SaveVideoMetadata site) of
        Some e \<Rightarrow> (w, Inl e)
      | None \<Rightarrow> (w\<lparr>videos := (videos w)(vm_id video \<mapsto> video)\<rparr>, Inr ()))"

definition getVideoMetadata ::
  "env \<Rightarrow> platform \<Rightarrow> string \<Rightarrow> world \<Rightarrow> js_error + VideoMetadata option" where
  "getVideoMetadata env site videoId w =
     (case dbFault env (GetVideoMetadata site) of
        Some e \<Rightarrow> Inl e
      | None \<Rightarrow> Inr (videos w videoId))"

text \<open>Firestore's \<^verbatim>\<open>update\<close> rejects when the document does not exist.\<close>

definition notFound :: js_error where
  "notFound = Error ''NOT_FOUND: No document to update''"

definition updateVideoStatus ::
  "env \<Rightarrow> string \<Rightarrow> video_status \<Rightarrow> world \<Rightarrow> world \<times> (js_error + unit)" where
  "updateVideoStatus env videoId status w =
     (case dbFault env UpdateVideoStatus of
        Some e \<Rightarrow> (w, Inl e)
      | None \<Rightarrow>
          (case videos w videoId of
             None \<Rightarrow> (w, Inl notFound)
           | Some video \<Rightarrow>
               (w\<lparr>videos := (videos w)(videoId \<mapsto> video\<lparr>vm_status := status\<rparr>)\<rparr>, Inr ())))"

definition getVideosByNiche ::
  "env \<Rightarrow> string \<Rightarrow> nat \<Rightarrow> world \<Rightarrow> js_error + VideoMetadata list" where
  "getVideosByNiche env niche limit w =
     (case dbFault env GetVideosByNiche of
        Some e \<Rightarrow> Inl e
      | None \<Rightarrow> Inr (queryVideosByNiche env (videos w) niche limit))"

definition getContentNiche :: "env \<Rightarrow> string \<Rightarrow> world \<Rightarrow> js_error + ContentNiche option" where
  "getContentNiche env nicheId w =
     (case dbFault env GetContentNiche of
        Some e \<Rightarrow> Inl e
      | None \<Rightarrow> Inr (niches w nicheId))"

definition createJob ::
  "env \<Rightarrow> job_type \<Rightarrow> job_status \<Rightarrow> string \<Rightarrow> nat \<Rightarrow> world \<Rightarrow> world \<times> (js_error + string)" where
  "createJob env type status niche retryCount w =
     (case dbFault env CreateJob of
        Some e \<Rightarrow> (w, Inl e)
      | None \<Rightarrow>
          (let jobData =
                 \<lparr>wj_id = newJobId env, wj_type = type, wj_status = status, wj_niche = niche,
                  wj_videoId = None, wj_createdAt = clockAt env CreateJob, wj_startedAt = None,
                  wj_completedAt = None, wj_error = None, wj_retryCount = retryCount\<rparr>
           in (w\<lparr>jobs := (jobs w)(wj_id jobData \<mapsto> jobData),
                 jobLog := jobLog w @ [(wj_id jobData, status)]\<rparr>,
               Inr (wj_id jobData))))"

definition updateJobStatus ::
  "env \<Rightarrow> string \<Rightarrow> job_status \<Rightarrow> string option \<Rightarrow> world \<Rightarrow> world \<times> (js_error + unit)" where
  "updateJobStatus env jobId status error w =
     (case dbFault env (UpdateJobStatus status) of
        Some e \<Rightarrow> (w, Inl e)
      | None \<Rightarrow>
          (case jobs w jobId of
             None \<Rightarrow> (w, Inl notFound)
           | Some job \<Rightarrow>
               (w\<lparr>jobs := (jobs w)(jobId \<mapsto>
                      updateJobDoc job (status, error, clockAt env (UpdateJobStatus status))),
                  jobLog := jobLog w @ [(jobId, status)]\<rparr>,
                Inr ())))"

definition getJob :: "env \<Rightarrow> string \<Rightarrow> world \<Rightarrow> js_error + WorkflowJob option" where
  "getJob env jobId w =
     (case dbFault env GetJob of
        Some e \<Rightarrow> Inl e
      | None \<Rightarrow> Inr (jobs w jobId))"

text \<open>The document ids of the trending-topic log are not modelled: the log is a list.\<close>

definition saveTrendingTopics ::
  "env \<Rightarrow> TrendingTopic list \<Rightarrow> world \<Rightarrow> world \<times> (js_error + unit)" where
  "saveTrendingTopics env topics w =
     (case dbFault env SaveTrendingTopics of
        Some e \<Rightarrow> (w, Inl e)
      | None \<Rightarrow> (w\<lparr>trending := trending w @ topics\<rparr>, Inr ()))"

section \<open>Platform fan-out (workflow-orchestrator.ts, postToAllPlatforms)\<close>

text \<open>
  \<^verbatim>\<open>postToAllPlatforms\<close> starts one asynchronous call per enabled platform and awaits
  \<^verbatim>\<open>Promise.allSettled\<close>. Each call runs in pieces separated by its \<^verbatim>\<open>await\<close>s, and the
  pieces of different calls interleave in the order in which the awaited operations
  complete. A \<open>task\<close> is the point at which a call is suspended; a step of a platform
  completes the operation the call is waiting for and runs the call to its next
  \<^verbatim>\<open>await\<close>. The interleaving is a parameter: a schedule is a list of platforms, each
  entry giving the platform whose awaited operation completes next. Every error is
  caught inside the call (and logged), which settles it.
\<close>

datatype task =
    NotDispatched
  | AwaitSetCredentials
  | AwaitAdapter
  | AwaitGetVideo "string option"
  | AwaitPostReel VideoMetadata
  | AwaitSaveVideo VideoMetadata
  | Settled

definition joinWith :: "string \<Rightarrow> string list \<Rightarrow> string" where
  "joinWith sep xs = (case xs of [] \<Rightarrow> [] | y # ys \<Rightarrow> y @ concat (map (\<lambda>z. sep @ z) ys))"

definition hashtagLine :: "string list \<Rightarrow> string" where
  "hashtagLine hashtags = joinWith '' '' (map (\<lambda>tag. CHR ''#'' # tag) hashtags)"

text \<open>
  A string is a list of characters with codes 0 to 255. \<open>isSpace\<close> holds of the
  characters in that range that \<^verbatim>\<open>String.prototype.trim\<close> strips: space, tab, line
  feed, vertical tab, form feed, carriage return and the no-break space U+00A0. The
  white space beyond U+00FF is outside the character type.
\<close>

definition isSpace :: "char \<Rightarrow> bool" where
  "isSpace c = (c \<in> set [CHR '' '', CHR 0x09, CHR 0x0A, CHR 0x0B, CHR 0x0C, CHR 0x0D, CHR 0xA0])"

definition trim :: "string \<Rightarrow> string" where
  "trim s = rev (dropWhile isSpace (rev (dropWhile isSpace s)))"

definition generateTitle :: "string \<Rightarrow> string" where
  "generateTitle description =
     (let firstSentence = takeWhile (\<lambda>c. c \<notin> set ''.!?'') description
      in trim (take 60 firstSentence))"

definition newPost :: "platform \<Rightarrow> string \<Rightarrow> nat \<Rightarrow> PlatformPost" where
  "newPost p externalId now =
     \<lparr>pp_platform = p, pp_postId = Some externalId, pp_postedAt = Some now,
      pp_status = post_posted, pp_error = None, pp_views = None, pp_likes = None,
      pp_comments = None\<rparr>"

definition pushPost :: "env \<Rightarrow> platform \<Rightarrow> string \<Rightarrow> VideoMetadata \<Rightarrow> VideoMetadata" where
  "pushPost env p externalId video =
     video\<lparr>vm_platforms := vm_platforms video
        @ [newPost p externalId (clockAt env (SaveVideoMetadata (Some p)))]\<rparr>"

definition postToYouTube ::
  "env \<Rightarrow> string \<Rightarrow> buffer \<Rightarrow> string \<Rightarrow> string list \<Rightarrow> youtube_account \<Rightarrow> task \<Rightarrow> world \<Rightarrow> world \<times> task" where
  "postToYouTube env videoId videoBuffer description hashtags youtubeAccount t w =
     (case t of
        AwaitSetCredentials \<Rightarrow>
          (case setCredentials env (refreshToken youtubeAccount) of
             Inl e \<Rightarrow> (w, Settled)
           | Inr u \<Rightarrow> (w, AwaitAdapter))
      | AwaitAdapter \<Rightarrow>
          (case uploadShortFromBuffer env videoBuffer (generateTitle description) description hashtags of
             Inl e \<Rightarrow> (w, Settled)
           | Inr resultVideoId \<Rightarrow> (w, AwaitGetVideo (Some resultVideoId)))
      | AwaitGetVideo (Some resultVideoId) \<Rightarrow>
          (case getVideoMetadata env youtube videoId w of
             Inl e \<Rightarrow> (w, Settled)
           | Inr None \<Rightarrow> (w, Settled)
           | Inr (Some video) \<Rightarrow> (w, AwaitSaveVideo (pushPost env youtube resultVideoId video)))
      | AwaitSaveVideo video \<Rightarrow> (fst (saveVideoMetadata env (Some youtube) video w), Settled)
      | _ \<Rightarrow> (w, t))"

definition postToInstagram ::
  "env \<Rightarrow> string \<Rightarrow> string \<Rightarrow> string list \<Rightarrow> ContentNiche \<Rightarrow> task \<Rightarrow> world \<Rightarrow> world \<times> task" where
  "postToInstagram env videoId description hashtags niche t w =
     (case t of
        AwaitGetVideo None \<Rightarrow>
          (case getVideoMetadata env instagram videoId w of
             Inl e \<Rightarrow> (w, Settled)
           | Inr None \<Rightarrow> (w, Settled)
           | Inr (Some video) \<Rightarrow> (w, AwaitPostReel video))
      | AwaitPostReel video \<Rightarrow>
          (case sa_instagram (cn_socialAccounts niche) of
             None \<Rightarrow> (w, Settled)
           | Some account \<Rightarrow>
               (let caption = description @ [CHR 0x0A, CHR 0x0A] @ hashtagLine hashtags in
                case postReel env (ig_accessToken account) (accountId account) (vm_videoUrl video) caption of
                  Inl e \<Rightarrow> (w, Settled)
                | Inr mediaId \<Rightarrow> (w, AwaitSaveVideo (pushPost env instagram mediaId video))))
      | AwaitSaveVideo video \<Rightarrow> (fst (saveVideoMetadata env (Some instagram) video w), Settled)
      | _ \<Rightarrow> (w, t))"

definition postToTikTok ::
  "env \<Rightarrow> string \<Rightarrow> buffer \<Rightarrow> string \<Rightarrow> string list \<Rightarrow> string \<Rightarrow> task \<Rightarrow> world \<Rightarrow> world \<times> task" where
  "postToTikTok env videoId videoBuffer description hashtags accessToken t w =
     (case t of
        AwaitAdapter \<Rightarrow>
          (let caption = description @ '' '' @ hashtagLine hashtags in
           case postVideo env accessToken videoBuffer caption of
             Inl e \<Rightarrow> (w, Settled)
           | Inr publishId \<Rightarrow> (w, AwaitGetVideo (Some publishId)))
      | AwaitGetVideo (Some publishId) \<Rightarrow>
          (case getVideoMetadata env tiktok videoId w of
             Inl e \<Rightarrow> (w, Settled)
           | Inr None \<Rightarrow> (w, Settled)
           | Inr (Some video) \<Rightarrow> (w, AwaitSaveVideo (pushPost env tiktok publishId video)))
      | AwaitSaveVideo video \<Rightarrow> (fst (saveVideoMetadata env (Some tiktok) video w), Settled)
      | _ \<Rightarrow> (w, t))"

text \<open>
  The guards of \<^verbatim>\<open>postToAllPlatforms\<close>: an account object is truthy when it is present;
  for TikTok the guard is \<^verbatim>\<open>niche.socialAccounts.tiktok?.accessToken\<close>, a string.
  \<open>dispatched\<close> lists the calls pushed into \<^verbatim>\<open>platforms\<close>, and \<open>startTask\<close> is where each
  call is first suspended.
\<close>

definition tiktokToken :: "ContentNiche \<Rightarrow> string option" where
  "tiktokToken niche =
     (case sa_tiktok (cn_socialAccounts niche) of
        None \<Rightarrow> None
      | Some account \<Rightarrow> tt_accessToken account)"

definition dispatched :: "ContentNiche \<Rightarrow> platform list" where
  "dispatched niche =
     (if sa_youtube (cn_socialAccounts niche) \<noteq> None then [youtube] else [])
     @ (if sa_instagram (cn_socialAccounts niche) \<noteq> None then [instagram] else [])
     @ (if truthy (tiktokToken niche) then [tiktok] else [])"

definition startTask :: "ContentNiche \<Rightarrow> platform \<Rightarrow> task" where
  "startTask niche p =
     (if p \<in> set (dispatched niche)
      then (case p of
              youtube \<Rightarrow> AwaitSetCredentials
            | instagram \<Rightarrow> AwaitGetVideo None
            | tiktok \<Rightarrow> AwaitAdapter)
      else NotDispatched)"

definition advance ::
  "env \<Rightarrow> string \<Rightarrow> buffer \<Rightarrow> string \<Rightarrow> string list \<Rightarrow> ContentNiche \<Rightarrow> world \<times> (platform \<Rightarrow> task) \<Rightarrow> platform
     \<Rightarrow> world \<times> (platform \<Rightarrow> task)" where
  "advance env videoId videoBuffer description hashtags niche st p =
     (case st of (w, tasks) \<Rightarrow>
        (case (case p of
                 youtube \<Rightarrow>
                   (case sa_youtube (cn_socialAccounts niche) of
                      None \<Rightarrow> (w, tasks p)
                    | Some account \<Rightarrow>
                        postToYouTube env videoId videoBuffer description hashtags account (tasks p) w)
               | instagram \<Rightarrow> postToInstagram env videoId description hashtags niche (tasks p) w
               | tiktok \<Rightarrow>
                   (case tiktokToken niche of
                      None \<Rightarrow> (w, tasks p)
                    | Some accessToken \<Rightarrow>
                        postToTikTok env videoId videoBuffer description hashtags accessToken (tasks p) w))
         of (w', t') \<Rightarrow> (w', tasks(p := t'))))"

text \<open>
  \<^verbatim>\<open>Promise.allSettled\<close> returns when every call has settled. After the schedule, the
  calls still pending are run to their end (a call settles in at most four steps), so
  every schedule, of any length, is an execution in which all calls settle.
\<close>

definition settleOrder :: "platform list" where
  "settleOrder =
     [youtube, youtube, youtube, youtube, instagram, instagram, instagram, tiktok, tiktok, tiktok]"

definition postToAllPlatforms ::
  "env \<Rightarrow> platform list \<Rightarrow> string \<Rightarrow> buffer \<Rightarrow> string \<Rightarrow> string list \<Rightarrow> ContentNiche \<Rightarrow> world \<Rightarrow> world" where
  "postToAllPlatforms env schedule videoId videoBuffer description hashtags niche w =
     fst (foldl (advance env videoId videoBuffer description hashtags niche)
            (w, startTask niche) (schedule @ settleOrder))"

section \<open>The workflow (workflow-orchestrator.ts, generateAndPostVideo and retryFailedJob)\<close>

definition workflowSteps ::
  "env \<Rightarrow> platform list \<Rightarrow> ContentNiche \<Rightarrow> string \<Rightarrow> world \<Rightarrow> world \<times> (js_error + string)" where
  "workflowSteps env schedule niche jobId w0 =
     andThen (updateJobStatus env jobId job_running None w0) (\<lambda>u w.
     andThen (lift (getTrendingForNiche env (cn_name niche) (cn_keywords niche)) w) (\<lambda>trendingTopics w.
     andThen (if trendingTopics \<noteq> [] then saveTrendingTopics env trendingTopics w else (w, Inr ())) (\<lambda>u w.
     andThen (lift (getVideosByNiche env (cn_id niche) 10 w) w) (\<lambda>recentVideos w.
     let previousPrompts = map vm_prompt recentVideos in
     andThen (lift (generatePrompt env
                \<lparr>pr_niche = cn_name niche,
                 pr_trendingTopics = (if trendingTopics \<noteq> [] then Some trendingTopics else None),
                 pr_previousPrompts = Some previousPrompts,
                 pr_style = Some (getStyleFromNiche niche)\<rparr>) w) (\<lambda>promptResponse w.
     let videoId = uuidv4 env in
     andThen (lift (generateVideo env
                \<lparr>vr_prompt = pg_prompt promptResponse, vr_niche = cn_id niche\<rparr>) w) (\<lambda>videoResponse w.
     andThen (lift (downloadVideo env (vg_videoUrl videoResponse)) w) (\<lambda>videoBuffer w.
     andThen (lift (uploadVideo env videoBuffer videoId (cn_id niche)) w) (\<lambda>stored w.
     let videoMetadata =
           \<lparr>vm_id = videoId, vm_niche = cn_id niche, vm_prompt = pg_prompt promptResponse,
            vm_videoUrl = fst stored, vm_storagePath = snd stored,
            vm_duration = vg_duration videoResponse,
            vm_createdAt = clockAt env (SaveVideoMetadata None), vm_status = video_ready,
            vm_platforms = []\<rparr> in
     andThen (saveVideoMetadata env None videoMetadata w) (\<lambda>u w.
     andThen (postToAllPlatforms env schedule videoId videoBuffer (pg_description promptResponse)
                (pg_suggestedHashtags promptResponse) niche w, Inr ()) (\<lambda>u w.
     andThen (updateJobStatus env jobId job_completed None w) (\<lambda>u w.
     andThen (updateVideoStatus env videoId video_posted w) (\<lambda>u w.
     (w, Inr videoId)))))))))))))"

text \<open>
  The \<^verbatim>\<open>catch\<close> block: when \<^verbatim>\<open>jobId\<close> is set (\<^verbatim>\<open>if (jobId)\<close>: not \<^verbatim>\<open>null\<close> and not
  the empty string) the job is marked failed with the message of the error, and the
  error is thrown again. A failure of that last update replaces the error.
\<close>

definition generateAndPostVideo ::
  "env \<Rightarrow> platform list \<Rightarrow> ContentNiche \<Rightarrow> world \<Rightarrow> world \<times> (js_error + string)" where
  "generateAndPostVideo env schedule niche w =
     (case createJob env job_generate job_queued (cn_id niche) 0 w of
        (w1, Inl error) \<Rightarrow> (w1, Inl error)
      | (w1, Inr jobId) \<Rightarrow>
          (case workflowSteps env schedule niche jobId w1 of
             (w2, Inr videoId) \<Rightarrow> (w2, Inr videoId)
           | (w2, Inl error) \<Rightarrow>
               (if truthy (Some jobId) then
                  (let errorMessage = message error in
                   case updateJobStatus env jobId job_failed (Some errorMessage) w2 of
                     (w3, Inl error') \<Rightarrow> (w3, Inl error')
                   | (w3, Inr u) \<Rightarrow> (w3, Inl error))
                else (w2, Inl error))))"

definition retryFailedJob ::
  "env \<Rightarrow> platform list \<Rightarrow> string \<Rightarrow> world \<Rightarrow> world \<times> (js_error + unit)" where
  "retryFailedJob env schedule jobId w =
     (case getJob env jobId w of
        Inl error \<Rightarrow> (w, Inl error)
      | Inr None \<Rightarrow> (w, Inl (Error ''Job not found or not in failed status''))
      | Inr (Some job) \<Rightarrow>
          (if wj_status job \<noteq> job_failed
           then (w, Inl (Error ''Job not found or not in failed status''))
           else
             (case getContentNiche env (wj_niche job) w of
                Inl error \<Rightarrow> (w, Inl error)
              | Inr None \<Rightarrow> (w, Inl (Error ''Niche not found''))
              | Inr (Some niche) \<Rightarrow>
                  (case generateAndPostVideo env schedule niche w of
                     (w', Inl error) \<Rightarrow> (w', Inl error)
                   | (w', Inr videoId) \<Rightarrow> (w', Inr ())))))"

section \<open>Predicates on the fan-out\<close>

text \<open>
  \<open>postedEntry\<close>: a \<^verbatim>\<open>PlatformPost\<close> with status posted, an external post id and a post
  time. \<open>adapterSucceeds\<close>: the calls to the platform's poster service return;
  \<open>attemptSucceeds\<close>: nothing in the platform's call throws, neither the poster service
  nor the read and the write of the video record (\<open>url\<close> is the video's URL, which the
  Instagram service receives).
\<close>

definition postedEntry :: "PlatformPost \<Rightarrow> bool" where
  "postedEntry pp = (pp_status pp = post_posted \<and> pp_postId pp \<noteq> None \<and> pp_postedAt pp \<noteq> None)"

definition adapterSucceeds ::
  "env \<Rightarrow> buffer \<Rightarrow> string \<Rightarrow> string list \<Rightarrow> ContentNiche \<Rightarrow> string \<Rightarrow> platform \<Rightarrow> bool" where
  "adapterSucceeds env videoBuffer description hashtags niche url p =
     (case p of
        youtube \<Rightarrow>
          (case sa_youtube (cn_socialAccounts niche) of
             None \<Rightarrow> False
           | Some account \<Rightarrow>
               \<not> isl (setCredentials env (refreshToken account))
               \<and> \<not> isl (uploadShortFromBuffer env videoBuffer (generateTitle description)
                        description hashtags))
      | instagram \<Rightarrow>
          (case sa_instagram (cn_socialAccounts niche) of
             None \<Rightarrow> False
           | Some account \<Rightarrow>
               \<not> isl (postReel env (ig_accessToken account) (accountId account) url
                        (description @ [CHR 0x0A, CHR 0x0A] @ hashtagLine hashtags)))
      | tiktok \<Rightarrow>
          (case tiktokToken niche of
             None \<Rightarrow> False
           | Some accessToken \<Rightarrow>
               \<not> isl (postVideo env accessToken videoBuffer
                        (description @ '' '' @ hashtagLine hashtags))))"

definition attemptSucceeds ::
  "env \<Rightarrow> buffer \<Rightarrow> string \<Rightarrow> string list \<Rightarrow> ContentNiche \<Rightarrow> string \<Rightarrow> platform \<Rightarrow> bool" where
  "attemptSucceeds env videoBuffer description hashtags niche url p =
     (adapterSucceeds env videoBuffer description hashtags niche url p
      \<and> dbFault env (GetVideoMetadata p) = None
      \<and> dbFault env (SaveVideoMetadata (Some p)) = None)"

definition goodEntry ::
  "env \<Rightarrow> buffer \<Rightarrow> string \<Rightarrow> string list \<Rightarrow> ContentNiche \<Rightarrow> string \<Rightarrow> PlatformPost \<Rightarrow> bool" where
  "goodEntry env videoBuffer description hashtags niche url pp =
     (postedEntry pp
      \<and> attemptSucceeds env videoBuffer description hashtags niche url (pp_platform pp))"

text \<open>Auxiliary notions for the proofs about all schedules.\<close>

definition extendsWith :: "(PlatformPost \<Rightarrow> bool) \<Rightarrow> VideoMetadata \<Rightarrow> VideoMetadata \<Rightarrow> bool" where
  "extendsWith good video v =
     (\<exists>added. v = video\<lparr>vm_platforms := vm_platforms video @ added\<rparr> \<and> list_all good added)"

definition taskInv ::
  "env \<Rightarrow> buffer \<Rightarrow> string \<Rightarrow> string list \<Rightarrow> ContentNiche \<Rightarrow> VideoMetadata \<Rightarrow> platform \<Rightarrow> task \<Rightarrow> bool" where
  "taskInv env videoBuffer description hashtags niche video p t =
     (case t of
        AwaitAdapter \<Rightarrow>
          (case sa_youtube (cn_socialAccounts niche) of
             None \<Rightarrow> True
           | Some account \<Rightarrow> p = youtube \<longrightarrow> \<not> isl (setCredentials env (refreshToken account)))
      | AwaitGetVideo r \<Rightarrow>
          r \<noteq> None \<longrightarrow>
            adapterSucceeds env videoBuffer description hashtags niche (vm_videoUrl video) p
      | AwaitPostReel v \<Rightarrow>
          p = instagram \<and> dbFault env (GetVideoMetadata p) = None
          \<and> extendsWith (goodEntry env videoBuffer description hashtags niche (vm_videoUrl video)) video v
      | AwaitSaveVideo v \<Rightarrow>
          (\<exists>v1 x. v = v1\<lparr>vm_platforms := vm_platforms v1 @ [x]\<rparr>
             \<and> extendsWith (goodEntry env videoBuffer description hashtags niche (vm_videoUrl video)) video v1
             \<and> postedEntry x \<and> pp_platform x = p
             \<and> adapterSucceeds env videoBuffer description hashtags niche (vm_videoUrl video) p
             \<and> dbFault env (GetVideoMetadata p) = None)
      | _ \<Rightarrow> True)"

definition storeInv ::
  "env \<Rightarrow> buffer \<Rightarrow> string \<Rightarrow> string list \<Rightarrow> ContentNiche \<Rightarrow> VideoMetadata \<Rightarrow> world \<Rightarrow> bool" where
  "storeInv env videoBuffer description hashtags niche video w =
     (\<exists>v. videos w (vm_id video) = Some v
          \<and> extendsWith (goodEntry env videoBuffer description hashtags niche (vm_videoUrl video)) video v)"

definition fanoutInv ::
  "env \<Rightarrow> buffer \<Rightarrow> string \<Rightarrow> string list \<Rightarrow> ContentNiche \<Rightarrow> VideoMetadata \<Rightarrow> world \<times> (platform \<Rightarrow> task) \<Rightarrow> bool" where
  "fanoutInv env videoBuffer description hashtags niche video st =
     (storeInv env videoBuffer description hashtags niche video (fst st)
      \<and> (\<forall>p. taskInv env videoBuffer description hashtags niche video p (snd st p)))"

section \<open>The partial-failure scenario\<close>

text \<open>
  Auxiliary definitions for the scenario in which the YouTube and TikTok calls succeed
  and the Instagram service throws: the entries the two calls append, the number of
  steps a call still has to take, and the invariants of the fan-out used in the proofs.
\<close>

definition stepsLeft :: "task \<Rightarrow> nat" where
  "stepsLeft t =
     (case t of
        NotDispatched \<Rightarrow> 0
      | AwaitSetCredentials \<Rightarrow> 4
      | AwaitAdapter \<Rightarrow> 3
      | AwaitGetVideo r \<Rightarrow> (if r = None then 3 else 2)
      | AwaitPostReel v \<Rightarrow> 2
      | AwaitSaveVideo v \<Rightarrow> 1
      | Settled \<Rightarrow> 0)"

definition youtubePost :: "env \<Rightarrow> string \<Rightarrow> PlatformPost" where
  "youtubePost env yid = newPost youtube yid (clockAt env (SaveVideoMetadata (Some youtube)))"

definition tiktokPost :: "env \<Rightarrow> string \<Rightarrow> PlatformPost" where
  "tiktokPost env tid = newPost tiktok tid (clockAt env (SaveVideoMetadata (Some tiktok)))"

definition storedPosts :: "world \<Rightarrow> VideoMetadata \<Rightarrow> PlatformPost list \<Rightarrow> bool" where
  "storedPosts w video ps = (videos w (vm_id video) = Some (video\<lparr>vm_platforms := ps\<rparr>))"

definition storeOK :: "PlatformPost \<Rightarrow> PlatformPost \<Rightarrow> PlatformPost list \<Rightarrow> bool \<Rightarrow> bool \<Rightarrow> bool" where
  "storeOK Y T ps youtubeSettled tiktokSettled =
     (ps \<in> set [[], [Y], [T], [Y, T], [T, Y]]
      \<and> (Y \<in> set ps \<longrightarrow> youtubeSettled)
      \<and> (T \<in> set ps \<longrightarrow> tiktokSettled)
      \<and> (youtubeSettled \<or> tiktokSettled \<longrightarrow> ps \<noteq> []))"

definition writerOK ::
  "VideoMetadata \<Rightarrow> string \<Rightarrow> PlatformPost \<Rightarrow> PlatformPost \<Rightarrow> bool \<Rightarrow> bool \<Rightarrow> task \<Rightarrow> bool" where
  "writerOK video externalId own other otherSettled withCredentials t =
     (case t of
        AwaitSetCredentials \<Rightarrow> withCredentials
      | AwaitAdapter \<Rightarrow> True
      | AwaitGetVideo r \<Rightarrow> r = Some externalId
      | AwaitSaveVideo c \<Rightarrow>
          c = video\<lparr>vm_platforms := [own]\<rparr>
          \<or> (c = video\<lparr>vm_platforms := [other, own]\<rparr> \<and> otherSettled)
      | Settled \<Rightarrow> True
      | _ \<Rightarrow> False)"

definition readerOK :: "VideoMetadata \<Rightarrow> task \<Rightarrow> bool" where
  "readerOK video t =
     (case t of
        AwaitGetVideo r \<Rightarrow> r = None
      | AwaitPostReel c \<Rightarrow> vm_videoUrl c = vm_videoUrl video
      | Settled \<Rightarrow> True
      | _ \<Rightarrow> False)"

definition raceInv ::
  "env \<Rightarrow> VideoMetadata \<Rightarrow> string \<Rightarrow> string \<Rightarrow> PlatformPost list \<Rightarrow> world \<times> (platform \<Rightarrow> task) \<Rightarrow> bool" where
  "raceInv env video yid tid ps st =
     (storedPosts (fst st) video ps
      \<and> storeOK (youtubePost env yid) (tiktokPost env tid) ps
           (snd st youtube = Settled) (snd st tiktok = Settled)
      \<and> writerOK video yid (youtubePost env yid) (tiktokPost env tid) (snd st tiktok = Settled) True
           (snd st youtube)
      \<and> writerOK video tid (tiktokPost env tid) (youtubePost env yid) (snd st youtube = Settled) False
           (snd st tiktok)
      \<and> readerOK video (snd st instagram))"

definition partialFailure ::
  "env \<Rightarrow> buffer \<Rightarrow> string \<Rightarrow> string list \<Rightarrow> ContentNiche \<Rightarrow> VideoMetadata \<Rightarrow> string \<Rightarrow> string \<Rightarrow> bool" where
  "partialFailure env buf desc tags niche video yid tid =
     (vm_platforms video = []
      \<and> (\<forall>p. dbFault env (GetVideoMetadata p) = None \<and> dbFault env (SaveVideoMetadata (Some p)) = None)
      \<and> (\<exists>account. sa_youtube (cn_socialAccounts niche) = Some account
            \<and> setCredentials env (refreshToken account) = Inr ()
            \<and> uploadShortFromBuffer env buf (generateTitle desc) desc tags = Inr yid)
      \<and> (\<exists>account. sa_instagram (cn_socialAccounts niche) = Some account
            \<and> isl (postReel env (ig_accessToken account) (accountId account) (vm_videoUrl video)
                     (desc @ [CHR 0x0A, CHR 0x0A] @ hashtagLine tags)))
      \<and> (\<exists>accessToken. tiktokToken niche = Some accessToken \<and> accessToken \<noteq> []
            \<and> postVideo env accessToken buf (desc @ '' '' @ hashtagLine tags) = Inr tid))"


text \<open>
  Two schedules of the fan-out in which the read-modify-write sequences of YouTube and
  TikTok do not overlap. In the scenario the YouTube call takes four steps (credentials,
  upload, read, write) and the TikTok call three (post, read, write).
  \<open>youtubeBeforeTikTok xs\<close>: some prefix of \<open>xs\<close> holds all four steps of YouTube and
  at most the first step of TikTok, so YouTube has written before TikTok reads;
  \<open>tiktokBeforeYouTube\<close> is the converse.
\<close>

definition writerFirst ::
  "VideoMetadata \<Rightarrow> PlatformPost \<Rightarrow> PlatformPost \<Rightarrow> task \<Rightarrow> task \<Rightarrow> world \<Rightarrow> bool" where
  "writerFirst video A B ta tb w =
     (ta = Settled
      \<and> ((2 \<le> stepsLeft tb \<and> storedPosts w video [A])
         \<or> (tb = AwaitSaveVideo (video\<lparr>vm_platforms := [A, B]\<rparr>) \<and> storedPosts w video [A])
         \<or> (tb = Settled \<and> storedPosts w video [A, B])))"

definition youtubeBeforeTikTok :: "platform list \<Rightarrow> bool" where
  "youtubeBeforeTikTok xs =
     list_ex (\<lambda>n. 4 \<le> count_list (take n xs) youtube \<and> count_list (take n xs) tiktok \<le> 1)
       [0..<Suc (length xs)]"

definition tiktokBeforeYouTube :: "platform list \<Rightarrow> bool" where
  "tiktokBeforeYouTube xs =
     list_ex (\<lambda>n. 3 \<le> count_list (take n xs) tiktok \<and> count_list (take n xs) youtube \<le> 2)
       [0..<Suc (length xs)]"


text \<open>The values the workflow builds on the way to the fan-out.\<close>

definition promptRequest :: "env \<Rightarrow> ContentNiche \<Rightarrow> TrendingTopic list \<Rightarrow> world \<Rightarrow> PromptGenerationRequest" where
  "promptRequest env niche trendingTopics w =
     \<lparr>pr_niche = cn_name niche,
      pr_trendingTopics = (if trendingTopics \<noteq> [] then Some trendingTopics else None),
      pr_previousPrompts = Some (map vm_prompt (queryVideosByNiche env (videos w) (cn_id niche) 10)),
      pr_style = Some (getStyleFromNiche niche)\<rparr>"

definition readyVideo ::
  "env \<Rightarrow> ContentNiche \<Rightarrow> PromptGenerationResponse \<Rightarrow> VideoGenerationResponse \<Rightarrow> string \<Rightarrow> string \<Rightarrow> VideoMetadata" where
  "readyVideo env niche promptResponse videoResponse publicUrl storagePath =
     \<lparr>vm_id = uuidv4 env, vm_niche = cn_id niche, vm_prompt = pg_prompt promptResponse,
      vm_videoUrl = publicUrl, vm_storagePath = storagePath,
      vm_duration = vg_duration videoResponse,
      vm_createdAt = clockAt env (SaveVideoMetadata None), vm_status = video_ready,
      vm_platforms = []\<rparr>"

definition runningJob :: "env \<Rightarrow> ContentNiche \<Rightarrow> WorkflowJob" where
  "runningJob env niche =
     \<lparr>wj_id = newJobId env, wj_type = job_generate, wj_status = job_running,
      wj_niche = cn_id niche, wj_videoId = None, wj_createdAt = clockAt env CreateJob,
      wj_startedAt = Some (clockAt env (UpdateJobStatus job_running)),
      wj_completedAt = None, wj_error = None, wj_retryCount = 0\<rparr>"


section \<open>Settling of the dispatched calls\<close>

text \<open>
  The state of each call once \<^verbatim>\<open>Promise.allSettled\<close> has returned, and the shape of the
  task states a platform's call can be in.
\<close>

definition tasksAfterFanout ::
  "env \<Rightarrow> platform list \<Rightarrow> string \<Rightarrow> buffer \<Rightarrow> string \<Rightarrow> string list \<Rightarrow> ContentNiche \<Rightarrow> world \<Rightarrow> platform \<Rightarrow> task" where
  "tasksAfterFanout env schedule videoId videoBuffer description hashtags niche w =
     snd (foldl (advance env videoId videoBuffer description hashtags niche)
            (w, startTask niche) (schedule @ settleOrder))"

definition wellFormed :: "ContentNiche \<Rightarrow> platform \<Rightarrow> task \<Rightarrow> bool" where
  "wellFormed niche p t =
     ((t = NotDispatched) = (p \<notin> set (dispatched niche))
      \<and> (case t of
            AwaitSetCredentials \<Rightarrow> p = youtube
          | AwaitAdapter \<Rightarrow> p \<noteq> instagram
          | AwaitGetVideo r \<Rightarrow> (r = None) = (p = instagram)
          | AwaitPostReel v \<Rightarrow> p = instagram
          | _ \<Rightarrow> True))"


text \<open>The job record a run leaves behind when it fails with the error \<open>e\<close>.\<close>

definition failedJob :: "env \<Rightarrow> ContentNiche \<Rightarrow> js_error \<Rightarrow> WorkflowJob" where
  "failedJob env niche e =
     \<lparr>wj_id = newJobId env, wj_type = job_generate, wj_status = job_failed,
      wj_niche = cn_id niche, wj_videoId = None, wj_createdAt = clockAt env CreateJob,
      wj_startedAt = Some (clockAt env (UpdateJobStatus job_running)),
      wj_completedAt = Some (clockAt env (UpdateJobStatus job_failed)),
      wj_error = (if message e = [] then None else Some (message e)),
      wj_retryCount = 0\<rparr>"

text \<open>The job record a run leaves behind when it succeeds.\<close>

definition completedJob :: "env \<Rightarrow> ContentNiche \<Rightarrow> WorkflowJob" where
  "completedJob env niche =
     \<lparr>wj_id = newJobId env, wj_type = job_generate, wj_status = job_completed,
      wj_niche = cn_id niche, wj_videoId = None, wj_createdAt = clockAt env CreateJob,
      wj_startedAt = Some (clockAt env (UpdateJobStatus job_running)),
      wj_completedAt = Some (clockAt env (UpdateJobStatus job_completed)),
      wj_error = None, wj_retryCount = 0\<rparr>"


section \<open>Concrete inputs\<close>

definition exampleJob :: WorkflowJob where
  "exampleJob =
     \<lparr>wj_id = ''job-1'', wj_type = job_generate, wj_status = job_queued,
      wj_niche = ''motivational'', wj_videoId = None, wj_createdAt = 0, wj_startedAt = None,
      wj_completedAt = None, wj_error = None, wj_retryCount = 0\<rparr>"

definition falAlwaysInProgress :: "nat \<Rightarrow> js_error + fal_data" where
  "falAlwaysInProgress k = Inr \<lparr>fal_status = ''IN_PROGRESS'', fal_video_url = None\<rparr>"

definition replicateAlwaysProcessing :: "nat \<Rightarrow> js_error + replicate_data" where
  "replicateAlwaysProcessing k = Inr \<lparr>rep_status = ''processing'', rep_output = None\<rparr>"

definition exampleNiche :: ContentNiche where
  "exampleNiche =
     \<lparr>cn_id = ''motivational'', cn_name = ''Daily Motivation Boost'',
      cn_description = ''Inspirational short videos'',
      cn_keywords = [''motivation'', ''success''],
      cn_promptTemplate = ''Create inspiring content'',
      cn_targetAudience = ''Students'',
      cn_postingSchedule = \<lparr>timesPerDay = 3, preferredTimes = [''09:00''], timezone = ''UTC''\<rparr>,
      cn_socialAccounts =
        \<lparr>sa_youtube = Some \<lparr>channelId = ''chan'', refreshToken = ''refresh''\<rparr>,
         sa_instagram = Some \<lparr>accountId = ''acct'', ig_accessToken = ''ig-token''\<rparr>,
         sa_tiktok = Some \<lparr>username = ''user'', tt_accessToken = Some ''tt-token''\<rparr>\<rparr>\<rparr>"

definition emptyWorld :: world where
  "emptyWorld = \<lparr>jobs = Map.empty, videos = Map.empty, niches = Map.empty, trending = [], jobLog = []\<rparr>"

definition exampleTopic :: TrendingTopic where
  "exampleTopic = \<lparr>tr_topic = ''morning routine'', tr_score = 80, tr_source = google_trends,
     tr_relatedKeywords = [], tr_fetchedAt = 1\<rparr>"

definition exampleEnv :: env where
  "exampleEnv =
     \<lparr>dbFault = (\<lambda>c. None),
      clockAt = (\<lambda>c. 100),
      newJobId = ''job-1'',
      uuidv4 = ''video-1'',
      getTrendingForNiche = (\<lambda>name keywords. Inr [exampleTopic]),
      queryVideosByNiche = (\<lambda>vs niche limit. []),
      generatePrompt = (\<lambda>request. Inr \<lparr>pg_prompt = ''A sunrise over hills'',
         pg_description = ''Rise and shine. Every day'', pg_suggestedHashtags = [''motivation''],
         pg_estimatedEngagement = high\<rparr>),
      generateVideo = (\<lambda>request. Inr \<lparr>vg_videoUrl = ''https://gen/video.mp4'', vg_duration = 8\<rparr>),
      downloadVideo = (\<lambda>url. Inr [1, 2, 3]),
      uploadVideo = (\<lambda>videoBuffer videoId niche. Inr (''https://store/video-1.mp4'', ''videos/video-1.mp4'')),
      setCredentials = (\<lambda>token. Inr ()),
      uploadShortFromBuffer = (\<lambda>videoBuffer title description hashtags. Inr ''yt-1''),
      postReel = (\<lambda>accessToken account url caption. Inl (Error ''Instagram API error'')),
      postVideo = (\<lambda>accessToken videoBuffer caption. Inr ''tt-1'')\<rparr>"

definition raceSchedule :: "platform list" where
  "raceSchedule = [youtube, youtube, tiktok, youtube, tiktok, youtube, tiktok]"

definition examplePrompt :: PromptGenerationResponse where
  "examplePrompt =
     \<lparr>pg_prompt = ''A sunrise over hills'', pg_description = ''Rise and shine. Every day'',
      pg_suggestedHashtags = [''motivation''], pg_estimatedEngagement = high\<rparr>"

definition exampleVideoResponse :: VideoGenerationResponse where
  "exampleVideoResponse = \<lparr>vg_videoUrl = ''https://gen/video.mp4'', vg_duration = 8\<rparr>"

definition exampleVideo :: VideoMetadata where
  "exampleVideo =
     readyVideo exampleEnv exampleNiche examplePrompt exampleVideoResponse
       ''https://store/video-1.mp4'' ''videos/video-1.mp4''"

definition exampleStore :: world where
  "exampleStore = emptyWorld\<lparr>videos := [''video-1'' \<mapsto> exampleVideo]\<rparr>"

definition topicStoreDown :: env where
  "topicStoreDown =
     exampleEnv\<lparr>dbFault := (\<lambda>c. if c = SaveTrendingTopics then Some (Error ''unavailable'') else None)\<rparr>"

definition generatorDown :: env where
  "generatorDown = exampleEnv\<lparr>generateVideo := (\<lambda>request. Inl (Error ''Video generation timed out''))\<rparr>"

definition failedWriteDown :: env where
  "failedWriteDown =
     generatorDown\<lparr>dbFault :=
       (\<lambda>c. if c = UpdateJobStatus job_failed then Some (Error ''store gone'') else None)\<rparr>"

definition usernameOnlyNiche :: ContentNiche where
  "usernameOnlyNiche =
     exampleNiche\<lparr>cn_socialAccounts :=
       \<lparr>sa_youtube = None, sa_instagram = None,
        sa_tiktok = Some \<lparr>username = ''REPLACE_WITH_YOUR_USERNAME'', tt_accessToken = None\<rparr>\<rparr>\<rparr>"

definition failedWorld :: world where
  "failedWorld =
     emptyWorld\<lparr>jobs := [''job-0'' \<mapsto> exampleJob\<lparr>wj_id := ''job-0'', wj_status := job_failed\<rparr>,
                          ''job-9'' \<mapsto> exampleJob\<lparr>wj_id := ''job-9'', wj_status := job_completed\<rparr>],
                niches := [''motivational'' \<mapsto> exampleNiche]\<rparr>"

text \<open>The rest of the theory proves the properties of the definitions above.\<close>

section \<open>Style inference\<close>

lemma startsWith_prefix: "startsWith s k = prefix k s"
  by (induction s k rule: startsWith.induct) auto

lemma includesStr_sublist: "includesStr s k = sublist k s"
  by (induction s) (auto simp: sublist_Cons_right startsWith_prefix)

text \<open>
  C5. The style is a function of the niche's display name alone: it is the first bucket
  of the fixed table (educational, motivational, news) one of whose keywords occurs in
  the lower-cased name, and entertainment when none does. Whatever the other fields of
  the niche, the name "Daily Motivation Boost" gives motivational, "Tech Tutorials"
  gives educational and "Random Fun" gives entertainment.
\<close>

theorem getStyleFromNiche_first_match:
  "getStyleFromNiche niche = style_spec (cn_name niche)
   \<and> getStyleFromNiche (niche\<lparr>cn_name := ''Daily Motivation Boost''\<rparr>) = motivational
   \<and> getStyleFromNiche (niche\<lparr>cn_name := ''Tech Tutorials''\<rparr>) = educational
   \<and> getStyleFromNiche (niche\<lparr>cn_name := ''Random Fun''\<rparr>) = entertainment"
proof -
  have spec: "getStyleFromNiche niche = style_spec (cn_name niche)"
    by (simp add: getStyleFromNiche_def style_spec_def styleBuckets_def includesStr_sublist Let_def)
  have a: "getStyleFromNiche (niche\<lparr>cn_name := ''Daily Motivation Boost''\<rparr>) = motivational"
    by (simp add: getStyleFromNiche_def toLowerCase_def toLowerCaseChar_def)
  have b: "getStyleFromNiche (niche\<lparr>cn_name := ''Tech Tutorials''\<rparr>) = educational"
    by (simp add: getStyleFromNiche_def toLowerCase_def toLowerCaseChar_def)
  have c: "getStyleFromNiche (niche\<lparr>cn_name := ''Random Fun''\<rparr>) = entertainment"
    by (simp add: getStyleFromNiche_def toLowerCase_def toLowerCaseChar_def)
  from spec a b c show ?thesis by simp
qed

section \<open>Engagement rate\<close>

lemma engagement_example: "calculateEngagementRate 100 10 5 5 = 20"
  by code_simp

text \<open>
  C7. For all non-negative integers views, likes, comments and shares the computed rate
  is 0 when views is 0 and otherwise the value of (likes + comments + shares) / views * 100,
  evaluated left to right in double arithmetic; for views = 100, likes = 10,
  comments = 5, shares = 5 it is exactly 20. The function is total: no case raises.
\<close>

theorem calculateEngagementRate_formula:
  "calculateEngagementRate (of_nat views) (of_nat likes) (of_nat comments) (of_nat shares) =
     (if views = 0 then 0
      else engagementRate_spec (of_nat views) (of_nat likes) (of_nat comments) (of_nat shares))
   \<and> calculateEngagementRate (of_nat 0) (of_nat likes) (of_nat comments) (of_nat shares) = 0
   \<and> calculateEngagementRate (of_nat 100) (of_nat 10) (of_nat 5) (of_nat 5) = 20"
  using engagement_example
  by (simp add: calculateEngagementRate_def engagementRate_spec_def)

section \<open>Job timestamps\<close>

text \<open>
  C8, as the code has it. A status update writes \<open>startedAt\<close> only when the new status
  is running: an update to any other status leaves the field as it was, and an update
  to running of a job that has no \<open>startedAt\<close> yet stores the time of the update.
  \<open>completedAt\<close> is written by every update to completed or failed, with the time of
  that update, and by no other update.
\<close>

theorem updateJobDoc_timestamps:
  "(s \<noteq> job_running \<longrightarrow> wj_startedAt (updateJobDoc job (s, e, t)) = wj_startedAt job)
   \<and> (s = job_running \<and> wj_startedAt job = None \<longrightarrow>
        wj_startedAt (updateJobDoc job (s, e, t)) = Some t)
   \<and> wj_completedAt (updateJobDoc job (s, e, t)) =
        (if terminal s then Some t else wj_completedAt job)"
  by (cases s) (simp_all add: updateJobDoc_def applyUpdates_def buildUpdates_def terminal_def Let_def)

theorem updateJobDoc_timestamps_witness:
  "wj_startedAt (updateJobDoc exampleJob (job_running, None, 5)) = Some 5
   \<and> wj_startedAt (updateJobDoc (updateJobDoc exampleJob (job_running, None, 5))
        (job_completed, None, 9)) = Some 5
   \<and> wj_completedAt (updateJobDoc (updateJobDoc exampleJob (job_running, None, 5))
        (job_completed, None, 9)) = Some 9"
proof -
  have none: "wj_startedAt exampleJob = None"
    by (simp add: exampleJob_def)
  have first: "wj_startedAt (updateJobDoc exampleJob (job_running, None, 5)) = Some 5"
    using updateJobDoc_timestamps [of job_running exampleJob None 5] none by simp
  have later: "wj_startedAt (updateJobDoc (updateJobDoc exampleJob (job_running, None, 5))
        (job_completed, None, 9)) = wj_startedAt (updateJobDoc exampleJob (job_running, None, 5))"
    using updateJobDoc_timestamps
      [of job_completed "updateJobDoc exampleJob (job_running, None, 5)" None 9] by simp
  have compl: "wj_completedAt (updateJobDoc (updateJobDoc exampleJob (job_running, None, 5))
        (job_completed, None, 9)) = Some 9"
    using updateJobDoc_timestamps
      [of job_completed "updateJobDoc exampleJob (job_running, None, 5)" None 9]
    by (simp add: terminal_def)
  from first later compl show ?thesis by simp
qed

text \<open>
  C8 as stated fails: a job that has been marked completed at time 2 and is then marked
  failed at time 3 carries \<open>completedAt = 3\<close>; the value written on entry to the
  terminal state has been overwritten.
\<close>

theorem completedAt_overwritten:
  "wj_completedAt (updateJobDocs exampleJob
      [(job_running, None, 1), (job_completed, None, 2)]) = Some 2
   \<and> wj_completedAt (updateJobDocs exampleJob
      [(job_running, None, 1), (job_completed, None, 2), (job_failed, Some ''boom'', 3)]) = Some 3"
  by (simp add: updateJobDocs_def updateJobDoc_def applyUpdates_def buildUpdates_def
      exampleJob_def truthy_def)

section \<open>Polling loops\<close>

lemma falLoop_polls: "snd (falLoop get a p) \<le> p + (maxAttempts - a)"
proof (induction get a p rule: falLoop.induct)
  case (1 get attempts polls)
  show ?case
  proof (cases "attempts < maxAttempts")
    case False
    then show ?thesis by (simp add: falLoop.simps[of get attempts polls])
  next
    case True
    show ?thesis
    proof (cases "get polls")
      case (Inl e)
      with True show ?thesis by (simp add: falLoop.simps[of get attempts polls])
    next
      case (Inr d)
      with True "1.IH"[of d] show ?thesis
        by (auto simp add: falLoop.simps[of get attempts polls])
    qed
  qed
qed

lemma falLoop_timeout:
  "\<forall>k. p \<le> k \<and> k < p + (maxAttempts - a) \<longrightarrow> falPending (get k) \<Longrightarrow>
   falLoop get a p = (Inr None, p + (maxAttempts - a))"
proof (induction get a p rule: falLoop.induct)
  case (1 get attempts polls)
  show ?case
  proof (cases "attempts < maxAttempts")
    case False
    then show ?thesis by (simp add: falLoop.simps[of get attempts polls])
  next
    case True
    with "1.prems" have pend: "falPending (get polls)" by simp
    then obtain d where d: "get polls = Inr d" "fal_status d \<noteq> ''COMPLETED''"
        "fal_status d \<noteq> ''FAILED''"
      by (auto simp: falPending_def split: sum.splits)
    have "\<forall>k. Suc polls \<le> k \<and> k < Suc polls + (maxAttempts - Suc attempts) \<longrightarrow> falPending (get k)"
      using "1.prems" True by auto
    with "1.IH"[OF True d(1) d(2) d(3)] True d show ?thesis
      by (simp add: falLoop.simps[of get attempts polls])
  qed
qed

lemma falLoop_no_success:
  "\<forall>k. p \<le> k \<and> k < p + (maxAttempts - a) \<longrightarrow> \<not> falCompleted (get k) \<Longrightarrow>
   (\<exists>e. fst (falLoop get a p) = Inl e) \<or> fst (falLoop get a p) = Inr None"
proof (induction get a p rule: falLoop.induct)
  case (1 get attempts polls)
  show ?case
  proof (cases "attempts < maxAttempts")
    case False
    then show ?thesis by (simp add: falLoop.simps[of get attempts polls])
  next
    case True
    with "1.prems" have nc: "\<not> falCompleted (get polls)" by simp
    show ?thesis
    proof (cases "get polls")
      case (Inl e)
      with True show ?thesis by (simp add: falLoop.simps[of get attempts polls])
    next
      case (Inr d)
      with nc have ns: "fal_status d \<noteq> ''COMPLETED''" by (simp add: falCompleted_def)
      show ?thesis
      proof (cases "fal_status d = ''FAILED''")
        case True
        with \<open>attempts < maxAttempts\<close> Inr ns show ?thesis
          by (simp add: falLoop.simps[of get attempts polls])
      next
        case False
        have "\<forall>k. Suc polls \<le> k \<and> k < Suc polls + (maxAttempts - Suc attempts) \<longrightarrow>
            \<not> falCompleted (get k)"
          using "1.prems" True by auto
        with "1.IH"[OF True Inr ns False] True Inr ns False show ?thesis
          by (simp add: falLoop.simps[of get attempts polls])
      qed
    qed
  qed
qed

lemma replicateLoop_polls: "snd (replicateLoop get a p) \<le> p + (maxAttempts - a)"
proof (induction get a p rule: replicateLoop.induct)
  case (1 get attempts polls)
  show ?case
  proof (cases "attempts < maxAttempts")
    case False
    then show ?thesis by (simp add: replicateLoop.simps[of get attempts polls])
  next
    case True
    show ?thesis
    proof (cases "get polls")
      case (Inl e)
      with True show ?thesis by (simp add: replicateLoop.simps[of get attempts polls])
    next
      case (Inr d)
      with True "1.IH"[of d] show ?thesis
        by (auto simp add: replicateLoop.simps[of get attempts polls])
    qed
  qed
qed

lemma replicateLoop_timeout:
  "\<forall>k. p \<le> k \<and> k < p + (maxAttempts - a) \<longrightarrow> replicatePending (get k) \<Longrightarrow>
   replicateLoop get a p = (Inr None, p + (maxAttempts - a))"
proof (induction get a p rule: replicateLoop.induct)
  case (1 get attempts polls)
  show ?case
  proof (cases "attempts < maxAttempts")
    case False
    then show ?thesis by (simp add: replicateLoop.simps[of get attempts polls])
  next
    case True
    with "1.prems" have pend: "replicatePending (get polls)" by simp
    then obtain d where d: "get polls = Inr d" "rep_status d \<noteq> ''succeeded''"
        "\<not> (rep_status d = ''failed'' \<or> rep_status d = ''canceled'')"
      by (auto simp: replicatePending_def split: sum.splits)
    have "\<forall>k. Suc polls \<le> k \<and> k < Suc polls + (maxAttempts - Suc attempts) \<longrightarrow>
        replicatePending (get k)"
      using "1.prems" True by auto
    with "1.IH"[OF True d(1) d(2) d(3)] True d show ?thesis
      by (simp add: replicateLoop.simps[of get attempts polls])
  qed
qed

lemma replicateLoop_no_success:
  "\<forall>k. p \<le> k \<and> k < p + (maxAttempts - a) \<longrightarrow> \<not> replicateSucceeded (get k) \<Longrightarrow>
   (\<exists>e. fst (replicateLoop get a p) = Inl e) \<or> fst (replicateLoop get a p) = Inr None"
proof (induction get a p rule: replicateLoop.induct)
  case (1 get attempts polls)
  show ?case
  proof (cases "attempts < maxAttempts")
    case False
    then show ?thesis by (simp add: replicateLoop.simps[of get attempts polls])
  next
    case True
    with "1.prems" have nc: "\<not> replicateSucceeded (get polls)" by simp
    show ?thesis
    proof (cases "get polls")
      case (Inl e)
      with True show ?thesis by (simp add: replicateLoop.simps[of get attempts polls])
    next
      case (Inr d)
      with nc have ns: "rep_status d \<noteq> ''succeeded''" by (simp add: replicateSucceeded_def)
      show ?thesis
      proof (cases "rep_status d = ''failed'' \<or> rep_status d = ''canceled''")
        case True
        with \<open>attempts < maxAttempts\<close> Inr ns show ?thesis
          by (simp add: replicateLoop.simps[of get attempts polls])
      next
        case False
        have "\<forall>k. Suc polls \<le> k \<and> k < Suc polls + (maxAttempts - Suc attempts) \<longrightarrow>
            \<not> replicateSucceeded (get k)"
          using "1.prems" True by auto
        with "1.IH"[OF True Inr ns False] True Inr ns False show ?thesis
          by (simp add: replicateLoop.simps[of get attempts polls])
      qed
    qed
  qed
qed

lemma falPoll_polls: "snd (falPoll get) \<le> 60"
proof -
  obtain r n where rn: "falLoop get 0 0 = (r, n)"
    by (cases "falLoop get 0 0")
  with falLoop_polls [of get 0 0] have "n \<le> 60"
    by (simp add: maxAttempts_def)
  with rn show ?thesis
    by (cases r) (simp_all add: falPoll_def split: option.splits)
qed

lemma falPoll_timeout:
  assumes "\<forall>k<60. falPending (get k)"
  shows "falPoll get = (Inl (Error ''Video generation timed out''), 60)"
proof -
  from assms have "\<forall>k. 0 \<le> k \<and> k < 0 + (maxAttempts - 0) \<longrightarrow> falPending (get k)"
    by (simp add: maxAttempts_def)
  then have "falLoop get 0 0 = (Inr None, 0 + (maxAttempts - 0))"
    by (rule falLoop_timeout)
  then show ?thesis
    by (simp add: falPoll_def maxAttempts_def truthy_def)
qed

lemma falPoll_no_success:
  assumes "\<forall>k<60. \<not> falCompleted (get k)"
  shows "\<exists>e. fst (falPoll get) = Inl e"
proof -
  obtain r n where rn: "falLoop get 0 0 = (r, n)"
    by (cases "falLoop get 0 0")
  from assms have "\<forall>k. 0 \<le> k \<and> k < 0 + (maxAttempts - 0) \<longrightarrow> \<not> falCompleted (get k)"
    by (simp add: maxAttempts_def)
  then have "(\<exists>e. fst (falLoop get 0 0) = Inl e) \<or> fst (falLoop get 0 0) = Inr None"
    by (rule falLoop_no_success)
  with rn have "(\<exists>e. r = Inl e) \<or> r = Inr None" by simp
  with rn show ?thesis
    by (auto simp: falPoll_def truthy_def)
qed

lemma replicatePoll_polls: "snd (replicatePoll get) \<le> 60"
proof -
  obtain r n where rn: "replicateLoop get 0 0 = (r, n)"
    by (cases "replicateLoop get 0 0")
  with replicateLoop_polls [of get 0 0] have "n \<le> 60"
    by (simp add: maxAttempts_def)
  with rn show ?thesis
    by (cases r) (simp_all add: replicatePoll_def split: option.splits)
qed

lemma replicatePoll_timeout:
  assumes "\<forall>k<60. replicatePending (get k)"
  shows "replicatePoll get = (Inl (Error ''Video generation timed out''), 60)"
proof -
  from assms have "\<forall>k. 0 \<le> k \<and> k < 0 + (maxAttempts - 0) \<longrightarrow> replicatePending (get k)"
    by (simp add: maxAttempts_def)
  then have "replicateLoop get 0 0 = (Inr None, 0 + (maxAttempts - 0))"
    by (rule replicateLoop_timeout)
  then show ?thesis
    by (simp add: replicatePoll_def maxAttempts_def truthy_def)
qed

lemma replicatePoll_no_success:
  assumes "\<forall>k<60. \<not> replicateSucceeded (get k)"
  shows "\<exists>e. fst (replicatePoll get) = Inl e"
proof -
  obtain r n where rn: "replicateLoop get 0 0 = (r, n)"
    by (cases "replicateLoop get 0 0")
  from assms have "\<forall>k. 0 \<le> k \<and> k < 0 + (maxAttempts - 0) \<longrightarrow> \<not> replicateSucceeded (get k)"
    by (simp add: maxAttempts_def)
  then have "(\<exists>e. fst (replicateLoop get 0 0) = Inl e) \<or> fst (replicateLoop get 0 0) = Inr None"
    by (rule replicateLoop_no_success)
  with rn have "(\<exists>e. r = Inl e) \<or> r = Inr None" by simp
  with rn show ?thesis
    by (auto simp: replicatePoll_def truthy_def)
qed

text \<open>
  C9. Both polling loops are total functions (their termination is proved with the
  measure \<open>maxAttempts - attempts\<close>), and whatever the status endpoint answers they make
  at most 60 status requests. When none of the 60 answers is a terminal status the
  loop ends after the 60th with the error "Video generation timed out"; and when no
  answer within the ceiling reports success, the call ends with a thrown error and never
  returns a video.
\<close>

theorem polling_attempt_ceiling:
  "snd (falPoll fget) \<le> 60 \<and> snd (replicatePoll rget) \<le> 60
   \<and> ((\<forall>k<60. falPending (fget k)) \<longrightarrow>
        falPoll fget = (Inl (Error ''Video generation timed out''), 60))
   \<and> ((\<forall>k<60. replicatePending (rget k)) \<longrightarrow>
        replicatePoll rget = (Inl (Error ''Video generation timed out''), 60))
   \<and> ((\<forall>k<60. \<not> falCompleted (fget k)) \<longrightarrow> (\<exists>e. fst (falPoll fget) = Inl e))
   \<and> ((\<forall>k<60. \<not> replicateSucceeded (rget k)) \<longrightarrow> (\<exists>e. fst (replicatePoll rget) = Inl e))"
  by (intro conjI impI falPoll_polls replicatePoll_polls falPoll_timeout replicatePoll_timeout
      falPoll_no_success replicatePoll_no_success)

theorem polling_attempt_ceiling_witness:
  "falPoll falAlwaysInProgress = (Inl (Error ''Video generation timed out''), 60)
   \<and> replicatePoll replicateAlwaysProcessing = (Inl (Error ''Video generation timed out''), 60)"
proof -
  note c = polling_attempt_ceiling [of falAlwaysInProgress replicateAlwaysProcessing]
  have f: "\<forall>k<60. falPending (falAlwaysInProgress k)"
    by (simp add: falPending_def falAlwaysInProgress_def)
  have r: "\<forall>k<60. replicatePending (replicateAlwaysProcessing k)"
    by (simp add: replicatePending_def replicateAlwaysProcessing_def)
  from c have "(\<forall>k<60. falPending (falAlwaysInProgress k)) \<longrightarrow>
      falPoll falAlwaysInProgress = (Inl (Error ''Video generation timed out''), 60)"
    by (elim conjE)
  with f have a: "falPoll falAlwaysInProgress = (Inl (Error ''Video generation timed out''), 60)"
    by (rule rev_mp)
  from c have "(\<forall>k<60. replicatePending (replicateAlwaysProcessing k)) \<longrightarrow>
      replicatePoll replicateAlwaysProcessing = (Inl (Error ''Video generation timed out''), 60)"
    by (elim conjE)
  with r have b: "replicatePoll replicateAlwaysProcessing =
      (Inl (Error ''Video generation timed out''), 60)"
    by (rule rev_mp)
  from a b show ?thesis by (rule conjI)
qed

section \<open>Fan-out: what is appended to the video record\<close>

lemma extendsWith_refl: "extendsWith good video video"
  unfolding extendsWith_def by (rule exI[of _ "[]"]) simp

lemma extendsWith_fields:
  "extendsWith good video v \<Longrightarrow> vm_id v = vm_id video \<and> vm_videoUrl v = vm_videoUrl video"
  by (auto simp: extendsWith_def)

lemma extendsWith_snoc:
  "extendsWith good video v1 \<Longrightarrow> good x \<Longrightarrow>
   extendsWith good video (v1\<lparr>vm_platforms := vm_platforms v1 @ [x]\<rparr>)"
  unfolding extendsWith_def
proof (elim exE conjE)
  fix added
  assume "v1 = video\<lparr>vm_platforms := vm_platforms video @ added\<rparr>" "list_all good added" "good x"
  then show "\<exists>added'. v1\<lparr>vm_platforms := vm_platforms v1 @ [x]\<rparr> =
      video\<lparr>vm_platforms := vm_platforms video @ added'\<rparr> \<and> list_all good added'"
    by (intro exI[of _ "added @ [x]"]) simp
qed

lemma postedEntry_newPost: "postedEntry (newPost p r t)"
  by (simp add: postedEntry_def newPost_def)

lemma platform_newPost: "pp_platform (newPost p r t) = p"
  by (simp add: newPost_def)

lemma taskInv_push:
  assumes "extendsWith (goodEntry env buf desc tags niche (vm_videoUrl video)) video v"
    and "adapterSucceeds env buf desc tags niche (vm_videoUrl video) p"
    and "dbFault env (GetVideoMetadata p) = None"
  shows "taskInv env buf desc tags niche video p (AwaitSaveVideo (pushPost env p r v))"
  unfolding taskInv_def task.case pushPost_def
  using assms postedEntry_newPost platform_newPost by blast

lemma save_inv:
  assumes S: "storeInv env buf desc tags niche video w"
    and T: "taskInv env buf desc tags niche video p (AwaitSaveVideo c)"
  shows "storeInv env buf desc tags niche video (fst (saveVideoMetadata env (Some p) c w))"
proof (cases "dbFault env (SaveVideoMetadata (Some p))")
  case (Some e)
  with S show ?thesis by (simp add: saveVideoMetadata_def)
next
  case None
  let ?good = "goodEntry env buf desc tags niche (vm_videoUrl video)"
  from T obtain v1 x where c: "c = v1\<lparr>vm_platforms := vm_platforms v1 @ [x]\<rparr>"
    "extendsWith ?good video v1" "postedEntry x" "pp_platform x = p"
    "adapterSucceeds env buf desc tags niche (vm_videoUrl video) p"
    "dbFault env (GetVideoMetadata p) = None"
    by (auto simp: taskInv_def)
  with None have "?good x"
    by (simp add: goodEntry_def attemptSucceeds_def)
  with c have ext: "extendsWith ?good video c"
    by (simp add: extendsWith_snoc)
  with None extendsWith_fields[OF ext] show ?thesis
    by (simp add: saveVideoMetadata_def storeInv_def)
qed

lemma postToYouTube_inv:
  assumes S: "storeInv env buf desc tags niche video w"
    and T: "taskInv env buf desc tags niche video youtube t"
    and A: "sa_youtube (cn_socialAccounts niche) = Some account"
  shows "storeInv env buf desc tags niche video
           (fst (postToYouTube env (vm_id video) buf desc tags account t w))
       \<and> taskInv env buf desc tags niche video youtube
           (snd (postToYouTube env (vm_id video) buf desc tags account t w))"
proof (cases t)
  case (AwaitSaveVideo c)
  with save_inv[OF S, of youtube c] T show ?thesis
    by (simp add: postToYouTube_def taskInv_def)
next
  case (AwaitGetVideo r)
  show ?thesis
  proof (cases r)
    case None
    with AwaitGetVideo S T show ?thesis by (simp add: postToYouTube_def)
  next
    case (Some rid)
    with AwaitGetVideo T have ok: "adapterSucceeds env buf desc tags niche (vm_videoUrl video) youtube"
      by (simp add: taskInv_def)
    from S obtain v where v: "videos w (vm_id video) = Some v"
      "extendsWith (goodEntry env buf desc tags niche (vm_videoUrl video)) video v"
      by (auto simp: storeInv_def)
    show ?thesis
    proof (cases "dbFault env (GetVideoMetadata youtube)")
      case None
      with taskInv_push[OF v(2) ok None] v AwaitGetVideo Some S show ?thesis
        by (simp add: postToYouTube_def getVideoMetadata_def)
    next
      case (Some e)
      with AwaitGetVideo \<open>r = Some rid\<close> S show ?thesis
        by (simp add: postToYouTube_def getVideoMetadata_def taskInv_def)
    qed
  qed
next
  case AwaitAdapter
  with S T A show ?thesis
    by (auto simp: postToYouTube_def taskInv_def adapterSucceeds_def split: sum.splits)
next
  case AwaitSetCredentials
  with S T A show ?thesis
    by (auto simp: postToYouTube_def taskInv_def split: sum.splits)
qed (use S T in \<open>simp_all add: postToYouTube_def\<close>)

lemma postToTikTok_inv:
  assumes S: "storeInv env buf desc tags niche video w"
    and T: "taskInv env buf desc tags niche video tiktok t"
    and A: "tiktokToken niche = Some accessToken"
  shows "storeInv env buf desc tags niche video
           (fst (postToTikTok env (vm_id video) buf desc tags accessToken t w))
       \<and> taskInv env buf desc tags niche video tiktok
           (snd (postToTikTok env (vm_id video) buf desc tags accessToken t w))"
proof (cases t)
  case (AwaitSaveVideo c)
  with save_inv[OF S, of tiktok c] T show ?thesis
    by (simp add: postToTikTok_def taskInv_def)
next
  case (AwaitGetVideo r)
  show ?thesis
  proof (cases r)
    case None
    with AwaitGetVideo S T show ?thesis by (simp add: postToTikTok_def)
  next
    case (Some rid)
    with AwaitGetVideo T have ok: "adapterSucceeds env buf desc tags niche (vm_videoUrl video) tiktok"
      by (simp add: taskInv_def)
    from S obtain v where v: "videos w (vm_id video) = Some v"
      "extendsWith (goodEntry env buf desc tags niche (vm_videoUrl video)) video v"
      by (auto simp: storeInv_def)
    show ?thesis
    proof (cases "dbFault env (GetVideoMetadata tiktok)")
      case None
      with taskInv_push[OF v(2) ok None] v AwaitGetVideo Some S show ?thesis
        by (simp add: postToTikTok_def getVideoMetadata_def)
    next
      case (Some e)
      with AwaitGetVideo \<open>r = Some rid\<close> S show ?thesis
        by (simp add: postToTikTok_def getVideoMetadata_def taskInv_def)
    qed
  qed
next
  case AwaitAdapter
  with S T A show ?thesis
    by (auto simp: postToTikTok_def taskInv_def adapterSucceeds_def Let_def split: sum.splits)
qed (use S T in \<open>simp_all add: postToTikTok_def\<close>)

lemma postToInstagram_inv:
  assumes S: "storeInv env buf desc tags niche video w"
    and T: "taskInv env buf desc tags niche video instagram t"
  shows "storeInv env buf desc tags niche video
           (fst (postToInstagram env (vm_id video) desc tags niche t w))
       \<and> taskInv env buf desc tags niche video instagram
           (snd (postToInstagram env (vm_id video) desc tags niche t w))"
proof (cases t)
  case (AwaitSaveVideo c)
  with save_inv[OF S, of instagram c] T show ?thesis
    by (simp add: postToInstagram_def taskInv_def)
next
  case (AwaitGetVideo r)
  show ?thesis
  proof (cases r)
    case (Some rid)
    with AwaitGetVideo S T show ?thesis by (simp add: postToInstagram_def)
  next
    case None
    from S obtain v where v: "videos w (vm_id video) = Some v"
      "extendsWith (goodEntry env buf desc tags niche (vm_videoUrl video)) video v"
      by (auto simp: storeInv_def)
    show ?thesis
    proof (cases "dbFault env (GetVideoMetadata instagram)")
      case None
      with v AwaitGetVideo \<open>r = None\<close> S show ?thesis
        by (simp add: postToInstagram_def getVideoMetadata_def taskInv_def)
    next
      case (Some e)
      with AwaitGetVideo \<open>r = None\<close> S show ?thesis
        by (simp add: postToInstagram_def getVideoMetadata_def taskInv_def)
    qed
  qed
next
  case (AwaitPostReel v)
  with T have v: "extendsWith (goodEntry env buf desc tags niche (vm_videoUrl video)) video v"
    and nf: "dbFault env (GetVideoMetadata instagram) = None"
    by (simp_all add: taskInv_def)
  show ?thesis
  proof (cases "sa_instagram (cn_socialAccounts niche)")
    case None
    with AwaitPostReel S show ?thesis by (simp add: postToInstagram_def taskInv_def)
  next
    case (Some account)
    show ?thesis
    proof (cases "postReel env (ig_accessToken account) (accountId account) (vm_videoUrl v)
        (desc @ [CHR 0x0A, CHR 0x0A] @ hashtagLine tags)")
      case (Inl e)
      with AwaitPostReel Some S show ?thesis
        by (simp add: postToInstagram_def taskInv_def Let_def)
    next
      case (Inr mediaId)
      with Some extendsWith_fields[OF v]
      have ok: "adapterSucceeds env buf desc tags niche (vm_videoUrl video) instagram"
        by (simp add: adapterSucceeds_def)
      from taskInv_push[OF v ok nf] AwaitPostReel Some Inr S show ?thesis
        by (simp add: postToInstagram_def Let_def)
    qed
  qed
qed (use S T in \<open>simp_all add: postToInstagram_def\<close>)

lemma fanoutInv_advance:
  assumes inv: "fanoutInv env buf desc tags niche video st"
  shows "fanoutInv env buf desc tags niche video (advance env (vm_id video) buf desc tags niche st p)"
proof -
  obtain w tasks where st: "st = (w, tasks)" by (cases st)
  from inv st have S: "storeInv env buf desc tags niche video w"
    and T: "\<And>q. taskInv env buf desc tags niche video q (tasks q)"
    by (simp_all add: fanoutInv_def)
  show ?thesis
  proof (cases p)
    case youtube
    show ?thesis
    proof (cases "sa_youtube (cn_socialAccounts niche)")
      case None
      with youtube st inv show ?thesis by (simp add: advance_def)
    next
      case (Some account)
      from postToYouTube_inv[OF S T[of youtube] Some] youtube Some st T show ?thesis
        by (auto simp: advance_def fanoutInv_def split: prod.splits)
    qed
  next
    case instagram
    from postToInstagram_inv[OF S T[of instagram]] instagram st T show ?thesis
      by (auto simp: advance_def fanoutInv_def split: prod.splits)
  next
    case tiktok
    show ?thesis
    proof (cases "tiktokToken niche")
      case None
      with tiktok st inv show ?thesis by (simp add: advance_def)
    next
      case (Some accessToken)
      from postToTikTok_inv[OF S T[of tiktok] Some] tiktok Some st T show ?thesis
        by (auto simp: advance_def fanoutInv_def split: prod.splits)
    qed
  qed
qed

lemma fanoutInv_foldl:
  "fanoutInv env buf desc tags niche video st \<Longrightarrow>
   fanoutInv env buf desc tags niche video
     (foldl (advance env (vm_id video) buf desc tags niche) st ps)"
  by (induction ps arbitrary: st) (simp_all add: fanoutInv_advance)

lemma goodEntry_fun:
  "goodEntry env buf desc tags niche url =
     (\<lambda>pp. postedEntry pp \<and> attemptSucceeds env buf desc tags niche url (pp_platform pp))"
  by (rule ext) (simp add: goodEntry_def)

lemma fanoutInv_start:
  assumes "videos w (vm_id video) = Some video"
  shows "fanoutInv env buf desc tags niche video (w, startTask niche)"
  using assms extendsWith_refl
  by (auto simp: fanoutInv_def storeInv_def taskInv_def startTask_def split: platform.splits option.splits)

text \<open>
  C10. Whatever the interleaving of the platform calls, the video record after the
  fan-out is the record before it with entries appended, and every appended entry has
  status posted, an external post id and a post time, and belongs to a platform whose
  call did not throw: a call that throws anywhere (poster service, read or write of the
  record) appends nothing. No entry with status pending or failed is written.
\<close>

theorem fanout_appends_posted_entries:
  assumes "videos w videoId = Some video" and "vm_id video = videoId"
  shows "\<exists>added.
      videos (postToAllPlatforms env schedule videoId videoBuffer description hashtags niche w) videoId
        = Some (video\<lparr>vm_platforms := vm_platforms video @ added\<rparr>)
      \<and> list_all (\<lambda>pp. postedEntry pp
            \<and> attemptSucceeds env videoBuffer description hashtags niche (vm_videoUrl video)
                 (pp_platform pp)) added"
proof -
  from assms have "fanoutInv env videoBuffer description hashtags niche video (w, startTask niche)"
    by (simp add: fanoutInv_start)
  then have "fanoutInv env videoBuffer description hashtags niche video
      (foldl (advance env (vm_id video) videoBuffer description hashtags niche)
         (w, startTask niche) (schedule @ settleOrder))"
    by (rule fanoutInv_foldl)
  then obtain added where
    "videos (postToAllPlatforms env schedule videoId videoBuffer description hashtags niche w) videoId
       = Some (video\<lparr>vm_platforms := vm_platforms video @ added\<rparr>)"
    "list_all (goodEntry env videoBuffer description hashtags niche (vm_videoUrl video)) added"
    using assms(2) by (auto simp: fanoutInv_def storeInv_def extendsWith_def postToAllPlatforms_def)
  then show ?thesis
    by (intro exI[of _ added]) (simp add: goodEntry_fun)
qed



section \<open>Fan-out: the partial-failure scenario\<close>

lemma posts_distinct [simp]:
  "youtubePost env yid \<noteq> tiktokPost env tid" "tiktokPost env tid \<noteq> youtubePost env yid"
  by (simp_all add: youtubePost_def tiktokPost_def newPost_def)

lemma pushPost_stored:
  "pushPost env youtube yid (video\<lparr>vm_platforms := ps\<rparr>) = video\<lparr>vm_platforms := ps @ [youtubePost env yid]\<rparr>"
  "pushPost env tiktok tid (video\<lparr>vm_platforms := ps\<rparr>) = video\<lparr>vm_platforms := ps @ [tiktokPost env tid]\<rparr>"
  by (simp_all add: pushPost_def youtubePost_def tiktokPost_def)

text \<open>One step of a writer (YouTube or TikTok) in the scenario, as an equation.\<close>

lemma youtube_step:
  assumes pf: "partialFailure env buf desc tags niche video yid tid"
    and sp: "storedPosts w video ps"
  shows "advance env (vm_id video) buf desc tags niche (w, tasks) youtube =
     (case tasks youtube of
        AwaitSetCredentials \<Rightarrow> (w, tasks(youtube := AwaitAdapter))
      | AwaitAdapter \<Rightarrow> (w, tasks(youtube := AwaitGetVideo (Some yid)))
      | AwaitGetVideo r \<Rightarrow>
          (if r = None then (w, tasks)
           else (w, tasks(youtube := AwaitSaveVideo
                   (video\<lparr>vm_platforms := ps @ [newPost youtube (the r) (clockAt env (SaveVideoMetadata (Some youtube)))]\<rparr>))))
      | AwaitSaveVideo c \<Rightarrow> (w\<lparr>videos := (videos w)(vm_id c \<mapsto> c)\<rparr>, tasks(youtube := Settled))
      | _ \<Rightarrow> (w, tasks))"
  using pf sp
  by (auto simp: partialFailure_def advance_def postToYouTube_def getVideoMetadata_def
      saveVideoMetadata_def storedPosts_def pushPost_def split: task.splits option.splits)

lemma tiktok_step:
  assumes pf: "partialFailure env buf desc tags niche video yid tid"
    and sp: "storedPosts w video ps"
  shows "advance env (vm_id video) buf desc tags niche (w, tasks) tiktok =
     (case tasks tiktok of
        AwaitAdapter \<Rightarrow> (w, tasks(tiktok := AwaitGetVideo (Some tid)))
      | AwaitGetVideo r \<Rightarrow>
          (if r = None then (w, tasks)
           else (w, tasks(tiktok := AwaitSaveVideo
                   (video\<lparr>vm_platforms := ps @ [newPost tiktok (the r) (clockAt env (SaveVideoMetadata (Some tiktok)))]\<rparr>))))
      | AwaitSaveVideo c \<Rightarrow> (w\<lparr>videos := (videos w)(vm_id c \<mapsto> c)\<rparr>, tasks(tiktok := Settled))
      | _ \<Rightarrow> (w, tasks))"
  using pf sp
  by (auto simp: partialFailure_def advance_def postToTikTok_def getVideoMetadata_def
      saveVideoMetadata_def storedPosts_def pushPost_def Let_def split: task.splits option.splits)

lemma instagram_step:
  assumes pf: "partialFailure env buf desc tags niche video yid tid"
    and sp: "storedPosts w video ps"
    and rd: "readerOK video (tasks instagram)"
  shows "advance env (vm_id video) buf desc tags niche (w, tasks) instagram =
     (case tasks instagram of
        AwaitGetVideo r \<Rightarrow> (w, tasks(instagram := AwaitPostReel (video\<lparr>vm_platforms := ps\<rparr>)))
      | AwaitPostReel c \<Rightarrow> (w, tasks(instagram := Settled))
      | _ \<Rightarrow> (w, tasks))"
  using pf sp rd
  by (auto simp: partialFailure_def advance_def postToInstagram_def getVideoMetadata_def
      storedPosts_def readerOK_def Let_def split: task.splits option.splits sum.splits)

lemma storedPosts_write:
  "storedPosts (w\<lparr>videos := (videos w)(vm_id video \<mapsto> video\<lparr>vm_platforms := ps\<rparr>)\<rparr>) video ps"
  by (simp add: storedPosts_def)

lemma writerOK_mono:
  "writerOK video x own other False c t \<Longrightarrow> writerOK video x own other b c t"
  by (cases t) (auto simp: writerOK_def)


lemma raceInv_youtube:
  assumes pf: "partialFailure env buf desc tags niche video yid tid"
    and inv: "raceInv env video yid tid ps (w, tasks)"
  shows "\<exists>ps' w' t'. advance env (vm_id video) buf desc tags niche (w, tasks) youtube
             = (w', tasks(youtube := t'))
           \<and> raceInv env video yid tid ps' (w', tasks(youtube := t'))
           \<and> stepsLeft t' = stepsLeft (tasks youtube) - 1"
proof -
  let ?Y = "youtubePost env yid" and ?T = "tiktokPost env tid"
  from inv have sp: "storedPosts w video ps"
    and so: "storeOK ?Y ?T ps (tasks youtube = Settled) (tasks tiktok = Settled)"
    and wy: "writerOK video yid ?Y ?T (tasks tiktok = Settled) True (tasks youtube)"
    and wt: "writerOK video tid ?T ?Y (tasks youtube = Settled) False (tasks tiktok)"
    and rd: "readerOK video (tasks instagram)"
    by (simp_all add: raceInv_def)
  note step = youtube_step[OF pf sp, of tasks]
  show ?thesis
  proof (cases "tasks youtube")
    case AwaitSetCredentials
    from step AwaitSetCredentials
    have eq: "advance env (vm_id video) buf desc tags niche (w, tasks) youtube
        = (w, tasks(youtube := AwaitAdapter))" by simp
    from sp so wt rd AwaitSetCredentials
    have "raceInv env video yid tid ps (w, tasks(youtube := AwaitAdapter))"
      by (simp add: raceInv_def writerOK_def[of video yid])
    with eq AwaitSetCredentials show ?thesis
      by (intro exI[of _ ps] exI[of _ w] exI[of _ AwaitAdapter]) (simp add: stepsLeft_def)
  next
    case AwaitAdapter
    from step AwaitAdapter
    have eq: "advance env (vm_id video) buf desc tags niche (w, tasks) youtube
        = (w, tasks(youtube := AwaitGetVideo (Some yid)))" by simp
    from sp so wt rd AwaitAdapter
    have "raceInv env video yid tid ps (w, tasks(youtube := AwaitGetVideo (Some yid)))"
      by (simp add: raceInv_def writerOK_def[of video yid])
    with eq AwaitAdapter show ?thesis
      by (intro exI[of _ ps] exI[of _ w] exI[of _ "AwaitGetVideo (Some yid)"]) (simp add: stepsLeft_def)
  next
    case (AwaitGetVideo r)
    with wy have r: "r = Some yid" by (simp add: writerOK_def)
    let ?c = "video\<lparr>vm_platforms := ps @ [?Y]\<rparr>"
    from step AwaitGetVideo r
    have eq: "advance env (vm_id video) buf desc tags niche (w, tasks) youtube
        = (w, tasks(youtube := AwaitSaveVideo ?c))" by (simp add: youtubePost_def)
    from so AwaitGetVideo have "ps = [] \<or> (ps = [?T] \<and> tasks tiktok = Settled)"
      by (auto simp: storeOK_def)
    then have "writerOK video yid ?Y ?T (tasks tiktok = Settled) True (AwaitSaveVideo ?c)"
      by (auto simp: writerOK_def)
    with sp so wt rd AwaitGetVideo
    have "raceInv env video yid tid ps (w, tasks(youtube := AwaitSaveVideo ?c))"
      by (simp add: raceInv_def)
    with eq AwaitGetVideo r show ?thesis
      by (intro exI[of _ ps] exI[of _ w] exI[of _ "AwaitSaveVideo ?c"]) (simp add: stepsLeft_def)
  next
    case (AwaitSaveVideo c)
    with wy have c: "c = video\<lparr>vm_platforms := [?Y]\<rparr>
        \<or> (c = video\<lparr>vm_platforms := [?T, ?Y]\<rparr> \<and> tasks tiktok = Settled)"
      by (simp add: writerOK_def)
    then obtain ps' where ps': "c = video\<lparr>vm_platforms := ps'\<rparr>"
      "ps' = [?Y] \<or> (ps' = [?T, ?Y] \<and> tasks tiktok = Settled)"
      by blast
    let ?w' = "w\<lparr>videos := (videos w)(vm_id video \<mapsto> video\<lparr>vm_platforms := ps'\<rparr>)\<rparr>"
    from step AwaitSaveVideo ps'(1)
    have eq: "advance env (vm_id video) buf desc tags niche (w, tasks) youtube
        = (?w', tasks(youtube := Settled))" by simp
    from ps'(2) have so': "storeOK ?Y ?T ps' True (tasks tiktok = Settled)"
      by (auto simp: storeOK_def)
    from wt have wt': "writerOK video tid ?T ?Y True False (tasks tiktok)"
      using AwaitSaveVideo by (simp add: writerOK_mono)
    from so' wt' rd storedPosts_write[of w video ps']
    have "raceInv env video yid tid ps' (?w', tasks(youtube := Settled))"
      by (simp add: raceInv_def writerOK_def[of video yid])
    with eq AwaitSaveVideo show ?thesis
      by (intro exI[of _ ps'] exI[of _ ?w'] exI[of _ Settled]) (simp add: stepsLeft_def)
  next
    case Settled
    then have idem: "tasks(youtube := Settled) = tasks" by auto
    from step Settled
    have "advance env (vm_id video) buf desc tags niche (w, tasks) youtube = (w, tasks)"
      by simp
    with idem have eq: "advance env (vm_id video) buf desc tags niche (w, tasks) youtube
        = (w, tasks(youtube := Settled))" by simp
    from inv idem have "raceInv env video yid tid ps (w, tasks(youtube := Settled))"
      by simp
    with eq Settled show ?thesis
      by (intro exI[of _ ps] exI[of _ w] exI[of _ Settled]) (simp add: stepsLeft_def)
  next
    case NotDispatched
    with wy show ?thesis by (simp add: writerOK_def)
  next
    case (AwaitPostReel c)
    with wy show ?thesis by (simp add: writerOK_def)
  qed
qed

lemma raceInv_tiktok:
  assumes pf: "partialFailure env buf desc tags niche video yid tid"
    and inv: "raceInv env video yid tid ps (w, tasks)"
  shows "\<exists>ps' w' t'. advance env (vm_id video) buf desc tags niche (w, tasks) tiktok
             = (w', tasks(tiktok := t'))
           \<and> raceInv env video yid tid ps' (w', tasks(tiktok := t'))
           \<and> stepsLeft t' = stepsLeft (tasks tiktok) - 1"
proof -
  let ?Y = "youtubePost env yid" and ?T = "tiktokPost env tid"
  from inv have sp: "storedPosts w video ps"
    and so: "storeOK ?Y ?T ps (tasks youtube = Settled) (tasks tiktok = Settled)"
    and wt: "writerOK video yid ?Y ?T (tasks tiktok = Settled) True (tasks youtube)"
    and wy: "writerOK video tid ?T ?Y (tasks youtube = Settled) False (tasks tiktok)"
    and rd: "readerOK video (tasks instagram)"
    by (simp_all add: raceInv_def)
  note step = tiktok_step[OF pf sp, of tasks]
  show ?thesis
  proof (cases "tasks tiktok")
    case AwaitSetCredentials
    with wy show ?thesis by (simp add: writerOK_def)
  next
    case AwaitAdapter
    from step AwaitAdapter
    have eq: "advance env (vm_id video) buf desc tags niche (w, tasks) tiktok
        = (w, tasks(tiktok := AwaitGetVideo (Some tid)))" by simp
    from sp so wt rd AwaitAdapter
    have "raceInv env video yid tid ps (w, tasks(tiktok := AwaitGetVideo (Some tid)))"
      by (simp add: raceInv_def writerOK_def[of video tid])
    with eq AwaitAdapter show ?thesis
      by (intro exI[of _ ps] exI[of _ w] exI[of _ "AwaitGetVideo (Some tid)"]) (simp add: stepsLeft_def)
  next
    case (AwaitGetVideo r)
    with wy have r: "r = Some tid" by (simp add: writerOK_def)
    let ?c = "video\<lparr>vm_platforms := ps @ [?T]\<rparr>"
    from step AwaitGetVideo r
    have eq: "advance env (vm_id video) buf desc tags niche (w, tasks) tiktok
        = (w, tasks(tiktok := AwaitSaveVideo ?c))" by (simp add: tiktokPost_def)
    from so AwaitGetVideo have "ps = [] \<or> (ps = [?Y] \<and> tasks youtube = Settled)"
      by (auto simp: storeOK_def)
    then have "writerOK video tid ?T ?Y (tasks youtube = Settled) False (AwaitSaveVideo ?c)"
      by (auto simp: writerOK_def)
    with sp so wt rd AwaitGetVideo
    have "raceInv env video yid tid ps (w, tasks(tiktok := AwaitSaveVideo ?c))"
      by (simp add: raceInv_def)
    with eq AwaitGetVideo r show ?thesis
      by (intro exI[of _ ps] exI[of _ w] exI[of _ "AwaitSaveVideo ?c"]) (simp add: stepsLeft_def)
  next
    case (AwaitSaveVideo c)
    with wy have c: "c = video\<lparr>vm_platforms := [?T]\<rparr>
        \<or> (c = video\<lparr>vm_platforms := [?Y, ?T]\<rparr> \<and> tasks youtube = Settled)"
      by (simp add: writerOK_def)
    then obtain ps' where ps': "c = video\<lparr>vm_platforms := ps'\<rparr>"
      "ps' = [?T] \<or> (ps' = [?Y, ?T] \<and> tasks youtube = Settled)"
      by blast
    let ?w' = "w\<lparr>videos := (videos w)(vm_id video \<mapsto> video\<lparr>vm_platforms := ps'\<rparr>)\<rparr>"
    from step AwaitSaveVideo ps'(1)
    have eq: "advance env (vm_id video) buf desc tags niche (w, tasks) tiktok
        = (?w', tasks(tiktok := Settled))" by simp
    from ps'(2) have so': "storeOK ?Y ?T ps' (tasks youtube = Settled) True"
      by (auto simp: storeOK_def)
    from wt have wt': "writerOK video yid ?Y ?T True True (tasks youtube)"
      using AwaitSaveVideo by (simp add: writerOK_mono)
    from so' wt' rd storedPosts_write[of w video ps']
    have "raceInv env video yid tid ps' (?w', tasks(tiktok := Settled))"
      by (simp add: raceInv_def writerOK_def[of video tid])
    with eq AwaitSaveVideo show ?thesis
      by (intro exI[of _ ps'] exI[of _ ?w'] exI[of _ Settled]) (simp add: stepsLeft_def)
  next
    case Settled
    then have idem: "tasks(tiktok := Settled) = tasks" by auto
    from step Settled
    have "advance env (vm_id video) buf desc tags niche (w, tasks) tiktok = (w, tasks)"
      by simp
    with idem have eq: "advance env (vm_id video) buf desc tags niche (w, tasks) tiktok
        = (w, tasks(tiktok := Settled))" by simp
    from inv idem have "raceInv env video yid tid ps (w, tasks(tiktok := Settled))"
      by simp
    with eq Settled show ?thesis
      by (intro exI[of _ ps] exI[of _ w] exI[of _ Settled]) (simp add: stepsLeft_def)
  next
    case NotDispatched
    with wy show ?thesis by (simp add: writerOK_def)
  next
    case (AwaitPostReel c)
    with wy show ?thesis by (simp add: writerOK_def)
  qed
qed



lemma raceInv_instagram:
  assumes pf: "partialFailure env buf desc tags niche video yid tid"
    and inv: "raceInv env video yid tid ps (w, tasks)"
  shows "\<exists>t'. advance env (vm_id video) buf desc tags niche (w, tasks) instagram
             = (w, tasks(instagram := t'))
           \<and> raceInv env video yid tid ps (w, tasks(instagram := t'))"
proof -
  from inv have sp: "storedPosts w video ps"
    and rd: "readerOK video (tasks instagram)"
    by (simp_all add: raceInv_def)
  note step = instagram_step[where tasks=tasks, OF pf sp rd]
  show ?thesis
  proof (cases "tasks instagram")
    case (AwaitGetVideo r)
    let ?t = "AwaitPostReel (video\<lparr>vm_platforms := ps\<rparr>)"
    from step AwaitGetVideo
    have eq: "advance env (vm_id video) buf desc tags niche (w, tasks) instagram
        = (w, tasks(instagram := ?t))" by simp
    from inv have "raceInv env video yid tid ps (w, tasks(instagram := ?t))"
      by (simp add: raceInv_def readerOK_def)
    with eq show ?thesis by (intro exI[of _ ?t]) simp
  next
    case (AwaitPostReel c)
    from step AwaitPostReel
    have eq: "advance env (vm_id video) buf desc tags niche (w, tasks) instagram
        = (w, tasks(instagram := Settled))" by simp
    from inv have "raceInv env video yid tid ps (w, tasks(instagram := Settled))"
      by (simp add: raceInv_def readerOK_def)
    with eq show ?thesis by (intro exI[of _ Settled]) simp
  next
    case Settled
    then have idem: "tasks(instagram := Settled) = tasks" by auto
    from step Settled
    have eq: "advance env (vm_id video) buf desc tags niche (w, tasks) instagram = (w, tasks)"
      by simp
    with inv idem show ?thesis by (intro exI[of _ Settled]) simp
  qed (use rd in \<open>simp_all add: readerOK_def\<close>)
qed

lemma raceInv_advance:
  assumes pf: "partialFailure env buf desc tags niche video yid tid"
    and inv: "raceInv env video yid tid ps st"
  shows "\<exists>ps'. raceInv env video yid tid ps' (advance env (vm_id video) buf desc tags niche st p)
     \<and> stepsLeft (snd (advance env (vm_id video) buf desc tags niche st p) youtube)
         = stepsLeft (snd st youtube) - (if p = youtube then 1 else 0)
     \<and> stepsLeft (snd (advance env (vm_id video) buf desc tags niche st p) tiktok)
         = stepsLeft (snd st tiktok) - (if p = tiktok then 1 else 0)"
proof -
  obtain w tasks where st: "st = (w, tasks)" by (cases st)
  show ?thesis
  proof (cases p)
    case youtube
    from raceInv_youtube[OF pf inv[unfolded st]] obtain ps' w' t' where
      "advance env (vm_id video) buf desc tags niche (w, tasks) youtube = (w', tasks(youtube := t'))"
      "raceInv env video yid tid ps' (w', tasks(youtube := t'))"
      "stepsLeft t' = stepsLeft (tasks youtube) - 1"
      by blast
    with st youtube show ?thesis by (intro exI[of _ ps']) simp
  next
    case tiktok
    from raceInv_tiktok[OF pf inv[unfolded st]] obtain ps' w' t' where
      "advance env (vm_id video) buf desc tags niche (w, tasks) tiktok = (w', tasks(tiktok := t'))"
      "raceInv env video yid tid ps' (w', tasks(tiktok := t'))"
      "stepsLeft t' = stepsLeft (tasks tiktok) - 1"
      by blast
    with st tiktok show ?thesis by (intro exI[of _ ps']) simp
  next
    case instagram
    from raceInv_instagram[OF pf inv[unfolded st]] obtain t' where
      "advance env (vm_id video) buf desc tags niche (w, tasks) instagram = (w, tasks(instagram := t'))"
      "raceInv env video yid tid ps (w, tasks(instagram := t'))"
      by blast
    with st instagram show ?thesis by (intro exI[of _ ps]) simp
  qed
qed

lemma raceInv_foldl:
  assumes pf: "partialFailure env buf desc tags niche video yid tid"
  shows "raceInv env video yid tid ps st \<Longrightarrow>
    \<exists>ps'. raceInv env video yid tid ps' (foldl (advance env (vm_id video) buf desc tags niche) st xs)
     \<and> stepsLeft (snd (foldl (advance env (vm_id video) buf desc tags niche) st xs) youtube)
         = stepsLeft (snd st youtube) - count_list xs youtube
     \<and> stepsLeft (snd (foldl (advance env (vm_id video) buf desc tags niche) st xs) tiktok)
         = stepsLeft (snd st tiktok) - count_list xs tiktok"
proof (induction xs arbitrary: ps st)
  case Nil
  then show ?case by (intro exI[of _ ps]) simp
next
  case (Cons x xs)
  from raceInv_advance[OF pf Cons.prems, of x] obtain ps1 where
    a: "raceInv env video yid tid ps1 (advance env (vm_id video) buf desc tags niche st x)"
    and b: "stepsLeft (snd (advance env (vm_id video) buf desc tags niche st x) youtube)
         = stepsLeft (snd st youtube) - (if x = youtube then 1 else 0)"
    and c: "stepsLeft (snd (advance env (vm_id video) buf desc tags niche st x) tiktok)
         = stepsLeft (snd st tiktok) - (if x = tiktok then 1 else 0)"
    by blast
  from Cons.IH[OF a] obtain ps2 where
    d: "raceInv env video yid tid ps2
         (foldl (advance env (vm_id video) buf desc tags niche)
            (advance env (vm_id video) buf desc tags niche st x) xs)"
    and e: "stepsLeft (snd (foldl (advance env (vm_id video) buf desc tags niche)
            (advance env (vm_id video) buf desc tags niche st x) xs) youtube)
         = stepsLeft (snd (advance env (vm_id video) buf desc tags niche st x) youtube)
             - count_list xs youtube"
    and f: "stepsLeft (snd (foldl (advance env (vm_id video) buf desc tags niche)
            (advance env (vm_id video) buf desc tags niche st x) xs) tiktok)
         = stepsLeft (snd (advance env (vm_id video) buf desc tags niche st x) tiktok)
             - count_list xs tiktok"
    by blast
  from d e f b c show ?case
    by (intro exI[of _ ps2]) simp
qed

lemma storedPosts_unique: "storedPosts w video ps \<Longrightarrow> storedPosts w video ps' \<Longrightarrow> ps = ps'"
proof -
  assume "storedPosts w video ps" "storedPosts w video ps'"
  then have "video\<lparr>vm_platforms := ps\<rparr> = video\<lparr>vm_platforms := ps'\<rparr>"
    by (simp add: storedPosts_def)
  then have "vm_platforms (video\<lparr>vm_platforms := ps\<rparr>) = vm_platforms (video\<lparr>vm_platforms := ps'\<rparr>)"
    by (rule arg_cong)
  then show ?thesis by simp
qed

lemma writer_settled:
  "writerOK video x own other b c t \<Longrightarrow> stepsLeft t = 0 \<Longrightarrow> t = Settled"
  by (cases t) (auto simp: writerOK_def stepsLeft_def split: if_splits)

lemma youtubeFirst_enter:
  assumes inv: "raceInv env video yid tid ps (w, tasks)"
    and y: "stepsLeft (tasks youtube) = 0" and t: "2 \<le> stepsLeft (tasks tiktok)"
  shows "writerFirst video (youtubePost env yid) (tiktokPost env tid) (tasks youtube) (tasks tiktok) w"
proof -
  from inv y have ys: "tasks youtube = Settled"
    by (auto simp: raceInv_def dest: writer_settled)
  from t have ts: "tasks tiktok \<noteq> Settled" by (auto simp: stepsLeft_def)
  from inv ys ts have "ps = [youtubePost env yid]"
    by (auto simp: raceInv_def storeOK_def)
  with inv ys t show ?thesis by (simp add: writerFirst_def raceInv_def)
qed

lemma tiktokFirst_enter:
  assumes inv: "raceInv env video yid tid ps (w, tasks)"
    and t: "stepsLeft (tasks tiktok) = 0" and y: "2 \<le> stepsLeft (tasks youtube)"
  shows "writerFirst video (tiktokPost env tid) (youtubePost env yid) (tasks tiktok) (tasks youtube) w"
proof -
  from inv t have ts: "tasks tiktok = Settled"
    by (auto simp: raceInv_def dest: writer_settled)
  from y have ys: "tasks youtube \<noteq> Settled" by (auto simp: stepsLeft_def)
  from inv ys ts have "ps = [tiktokPost env tid]"
    by (auto simp: raceInv_def storeOK_def)
  with inv ts y show ?thesis by (simp add: writerFirst_def raceInv_def)
qed

lemma youtubeFirst_advance:
  assumes pf: "partialFailure env buf desc tags niche video yid tid"
    and inv: "raceInv env video yid tid ps (w, tasks)"
    and wf: "writerFirst video (youtubePost env yid) (tiktokPost env tid) (tasks youtube) (tasks tiktok) w"
  shows "writerFirst video (youtubePost env yid) (tiktokPost env tid)
           (snd (advance env (vm_id video) buf desc tags niche (w, tasks) p) youtube)
           (snd (advance env (vm_id video) buf desc tags niche (w, tasks) p) tiktok)
           (fst (advance env (vm_id video) buf desc tags niche (w, tasks) p))"
proof -
  let ?Y = "youtubePost env yid" and ?T = "tiktokPost env tid"
  from inv have sp: "storedPosts w video ps"
    and wt: "writerOK video tid ?T ?Y (tasks youtube = Settled) False (tasks tiktok)"
    and rd: "readerOK video (tasks instagram)"
    by (simp_all add: raceInv_def)
  from wf have ys: "tasks youtube = Settled" by (simp add: writerFirst_def)
  show ?thesis
  proof (cases p)
    case youtube
    with youtube_step[OF pf sp, of tasks] ys wf show ?thesis by simp
  next
    case instagram
    with instagram_step[where tasks=tasks, OF pf sp rd] wf show ?thesis
      by (cases "tasks instagram") simp_all
  next
    case tiktok
    note step = tiktok_step[OF pf sp, of tasks]
    show ?thesis
    proof (cases "tasks tiktok")
      case AwaitAdapter
      with step tiktok wf show ?thesis by (simp add: writerFirst_def stepsLeft_def)
    next
      case (AwaitGetVideo r)
      with wt have r: "r = Some tid" by (simp add: writerOK_def)
      from wf AwaitGetVideo have "storedPosts w video [?Y]"
        by (simp add: writerFirst_def)
      with sp have "ps = [?Y]" by (rule storedPosts_unique)
      with step tiktok wf AwaitGetVideo r show ?thesis
        by (simp add: writerFirst_def tiktokPost_def)
    next
      case (AwaitSaveVideo c)
      with wf have c: "c = video\<lparr>vm_platforms := [?Y, ?T]\<rparr>"
        by (simp add: writerFirst_def stepsLeft_def)
      with step tiktok ys AwaitSaveVideo storedPosts_write[of w video "[?Y, ?T]"] show ?thesis
        by (simp add: writerFirst_def)
    next
      case Settled
      with step tiktok wf show ?thesis by simp
    qed (use wt in \<open>simp_all add: writerOK_def\<close>)
  qed
qed

lemma tiktokFirst_advance:
  assumes pf: "partialFailure env buf desc tags niche video yid tid"
    and inv: "raceInv env video yid tid ps (w, tasks)"
    and wf: "writerFirst video (tiktokPost env tid) (youtubePost env yid) (tasks tiktok) (tasks youtube) w"
  shows "writerFirst video (tiktokPost env tid) (youtubePost env yid)
           (snd (advance env (vm_id video) buf desc tags niche (w, tasks) p) tiktok)
           (snd (advance env (vm_id video) buf desc tags niche (w, tasks) p) youtube)
           (fst (advance env (vm_id video) buf desc tags niche (w, tasks) p))"
proof -
  let ?Y = "youtubePost env yid" and ?T = "tiktokPost env tid"
  from inv have sp: "storedPosts w video ps"
    and wy: "writerOK video yid ?Y ?T (tasks tiktok = Settled) True (tasks youtube)"
    and rd: "readerOK video (tasks instagram)"
    by (simp_all add: raceInv_def)
  from wf have ts: "tasks tiktok = Settled" by (simp add: writerFirst_def)
  show ?thesis
  proof (cases p)
    case tiktok
    with tiktok_step[OF pf sp, of tasks] ts wf show ?thesis by simp
  next
    case instagram
    with instagram_step[where tasks=tasks, OF pf sp rd] wf show ?thesis
      by (cases "tasks instagram") simp_all
  next
    case youtube
    note step = youtube_step[OF pf sp, of tasks]
    show ?thesis
    proof (cases "tasks youtube")
      case AwaitSetCredentials
      with step youtube wf show ?thesis by (simp add: writerFirst_def stepsLeft_def)
    next
      case AwaitAdapter
      with step youtube wf show ?thesis by (simp add: writerFirst_def stepsLeft_def)
    next
      case (AwaitGetVideo r)
      with wy have r: "r = Some yid" by (simp add: writerOK_def)
      from wf AwaitGetVideo have "storedPosts w video [?T]"
        by (simp add: writerFirst_def)
      with sp have "ps = [?T]" by (rule storedPosts_unique)
      with step youtube wf AwaitGetVideo r show ?thesis
        by (simp add: writerFirst_def youtubePost_def)
    next
      case (AwaitSaveVideo c)
      with wf have c: "c = video\<lparr>vm_platforms := [?T, ?Y]\<rparr>"
        by (simp add: writerFirst_def stepsLeft_def)
      with step youtube ts AwaitSaveVideo storedPosts_write[of w video "[?T, ?Y]"] show ?thesis
        by (simp add: writerFirst_def)
    next
      case Settled
      with step youtube wf show ?thesis by simp
    qed (use wy in \<open>simp_all add: writerOK_def\<close>)
  qed
qed

lemma youtubeFirst_foldl:
  assumes pf: "partialFailure env buf desc tags niche video yid tid"
  shows "raceInv env video yid tid ps st \<Longrightarrow>
    writerFirst video (youtubePost env yid) (tiktokPost env tid) (snd st youtube) (snd st tiktok) (fst st) \<Longrightarrow>
    writerFirst video (youtubePost env yid) (tiktokPost env tid)
      (snd (foldl (advance env (vm_id video) buf desc tags niche) st xs) youtube)
      (snd (foldl (advance env (vm_id video) buf desc tags niche) st xs) tiktok)
      (fst (foldl (advance env (vm_id video) buf desc tags niche) st xs))"
proof (induction xs arbitrary: ps st)
  case Nil
  then show ?case by simp
next
  case (Cons x xs)
  obtain w tasks where st: "st = (w, tasks)" by (cases st)
  from raceInv_advance[OF pf Cons.prems(1), of x] obtain ps1 where
    a: "raceInv env video yid tid ps1 (advance env (vm_id video) buf desc tags niche st x)"
    by blast
  from youtubeFirst_advance[OF pf, of ps w tasks x] Cons.prems st
  have b: "writerFirst video (youtubePost env yid) (tiktokPost env tid)
      (snd (advance env (vm_id video) buf desc tags niche st x) youtube)
      (snd (advance env (vm_id video) buf desc tags niche st x) tiktok)
      (fst (advance env (vm_id video) buf desc tags niche st x))"
    by simp
  from Cons.IH[OF a b] show ?case by simp
qed

lemma tiktokFirst_foldl:
  assumes pf: "partialFailure env buf desc tags niche video yid tid"
  shows "raceInv env video yid tid ps st \<Longrightarrow>
    writerFirst video (tiktokPost env tid) (youtubePost env yid) (snd st tiktok) (snd st youtube) (fst st) \<Longrightarrow>
    writerFirst video (tiktokPost env tid) (youtubePost env yid)
      (snd (foldl (advance env (vm_id video) buf desc tags niche) st xs) tiktok)
      (snd (foldl (advance env (vm_id video) buf desc tags niche) st xs) youtube)
      (fst (foldl (advance env (vm_id video) buf desc tags niche) st xs))"
proof (induction xs arbitrary: ps st)
  case Nil
  then show ?case by simp
next
  case (Cons x xs)
  obtain w tasks where st: "st = (w, tasks)" by (cases st)
  from raceInv_advance[OF pf Cons.prems(1), of x] obtain ps1 where
    a: "raceInv env video yid tid ps1 (advance env (vm_id video) buf desc tags niche st x)"
    by blast
  from tiktokFirst_advance[OF pf, of ps w tasks x] Cons.prems st
  have b: "writerFirst video (tiktokPost env tid) (youtubePost env yid)
      (snd (advance env (vm_id video) buf desc tags niche st x) tiktok)
      (snd (advance env (vm_id video) buf desc tags niche st x) youtube)
      (fst (advance env (vm_id video) buf desc tags niche st x))"
    by simp
  from Cons.IH[OF a b] show ?case by simp
qed

lemma startTask_partialFailure:
  assumes pf: "partialFailure env buf desc tags niche video yid tid"
  shows "startTask niche youtube = AwaitSetCredentials"
    and "startTask niche instagram = AwaitGetVideo None"
    and "startTask niche tiktok = AwaitAdapter"
  using pf by (auto simp: partialFailure_def startTask_def dispatched_def truthy_def)

lemma raceInv_start:
  assumes pf: "partialFailure env buf desc tags niche video yid tid"
    and stored: "videos w (vm_id video) = Some video"
  shows "raceInv env video yid tid [] (w, startTask niche)"
proof -
  from pf have "vm_platforms video = []" by (simp add: partialFailure_def)
  then have "video\<lparr>vm_platforms := []\<rparr> = video" by simp
  with stored have "storedPosts w video []" by (simp add: storedPosts_def)
  then show ?thesis
    by (simp add: raceInv_def startTask_partialFailure[OF pf] storeOK_def writerOK_def readerOK_def)
qed

lemma count_settleOrder:
  "count_list (xs @ settleOrder) youtube = count_list xs youtube + 4"
  "count_list (xs @ settleOrder) tiktok = count_list xs tiktok + 3"
  by (simp_all add: settleOrder_def)

lemma youtubeBeforeTikTokD:
  "youtubeBeforeTikTok xs \<Longrightarrow>
   \<exists>n. 4 \<le> count_list (take n xs) youtube \<and> count_list (take n xs) tiktok \<le> 1"
  unfolding youtubeBeforeTikTok_def list_ex_iff by blast

lemma tiktokBeforeYouTubeD:
  "tiktokBeforeYouTube xs \<Longrightarrow>
   \<exists>n. 3 \<le> count_list (take n xs) tiktok \<and> count_list (take n xs) youtube \<le> 2"
  unfolding tiktokBeforeYouTube_def list_ex_iff by blast

lemma fanout_partial_failure:
  assumes pf: "partialFailure env buf desc tags niche video yid tid"
    and stored: "videos w (vm_id video) = Some video"
  shows "\<exists>ps. storedPosts (postToAllPlatforms env schedule (vm_id video) buf desc tags niche w) video ps
      \<and> ps \<in> set [[youtubePost env yid], [tiktokPost env tid],
                  [youtubePost env yid, tiktokPost env tid],
                  [tiktokPost env tid, youtubePost env yid]]
      \<and> (youtubeBeforeTikTok (schedule @ settleOrder) \<longrightarrow>
            ps = [youtubePost env yid, tiktokPost env tid])
      \<and> (tiktokBeforeYouTube (schedule @ settleOrder) \<longrightarrow>
            ps = [tiktokPost env tid, youtubePost env yid])"
proof -
  let ?adv = "advance env (vm_id video) buf desc tags niche"
  let ?st0 = "(w, startTask niche)"
  let ?xs = "schedule @ settleOrder"
  let ?Y = "youtubePost env yid" and ?T = "tiktokPost env tid"
  note inv0 = raceInv_start[OF pf stored]
  note st0 = startTask_partialFailure[OF pf]
  have r0: "stepsLeft (snd ?st0 youtube) = 4" "stepsLeft (snd ?st0 tiktok) = 3"
    by (simp_all add: st0 stepsLeft_def)
  have r1: "stepsLeft (startTask niche youtube) = 4" "stepsLeft (startTask niche tiktok) = 3"
    "count_list settleOrder youtube = 4" "count_list settleOrder tiktok = 3"
    by (simp_all add: st0 stepsLeft_def settleOrder_def)
  from raceInv_foldl[OF pf inv0, of ?xs] obtain ps where
    inv: "raceInv env video yid tid ps (foldl ?adv ?st0 ?xs)"
    and ry': "stepsLeft (snd (foldl ?adv ?st0 ?xs) youtube)
        = stepsLeft (snd ?st0 youtube) - count_list ?xs youtube"
    and rt': "stepsLeft (snd (foldl ?adv ?st0 ?xs) tiktok)
        = stepsLeft (snd ?st0 tiktok) - count_list ?xs tiktok"
    by blast
  from ry' have ry: "stepsLeft (snd (foldl ?adv ?st0 ?xs) youtube) = 0"
    by (simp add: r1)
  from rt' have rt: "stepsLeft (snd (foldl ?adv ?st0 ?xs) tiktok) = 0"
    by (simp add: r1)
  from inv ry have ys: "snd (foldl ?adv ?st0 ?xs) youtube = Settled"
    by (auto simp: raceInv_def dest: writer_settled)
  from inv rt have ts: "snd (foldl ?adv ?st0 ?xs) tiktok = Settled"
    by (auto simp: raceInv_def dest: writer_settled)
  from inv have sp: "storedPosts (fst (foldl ?adv ?st0 ?xs)) video ps"
    by (simp add: raceInv_def)
  from inv ys have mem: "ps \<in> set [[?Y], [?T], [?Y, ?T], [?T, ?Y]]"
    by (auto simp: raceInv_def storeOK_def)
  have yfirst: "ps = [?Y, ?T]" if "youtubeBeforeTikTok ?xs"
  proof -
    from that obtain n where n: "4 \<le> count_list (take n ?xs) youtube"
      "count_list (take n ?xs) tiktok \<le> 1"
      using youtubeBeforeTikTokD by blast
    let ?mid = "foldl ?adv ?st0 (take n ?xs)"
    from raceInv_foldl[OF pf inv0, of "take n ?xs"] obtain pm where
      im: "raceInv env video yid tid pm ?mid"
      and my': "stepsLeft (snd ?mid youtube)
          = stepsLeft (snd ?st0 youtube) - count_list (take n ?xs) youtube"
      and mt': "stepsLeft (snd ?mid tiktok)
          = stepsLeft (snd ?st0 tiktok) - count_list (take n ?xs) tiktok"
      by blast
    from my' have my: "stepsLeft (snd ?mid youtube) = 4 - count_list (take n ?xs) youtube"
      by (simp only: r0)
    from mt' have mt: "stepsLeft (snd ?mid tiktok) = 3 - count_list (take n ?xs) tiktok"
      by (simp only: r0)
    obtain wm tm where mid: "?mid = (wm, tm)" by (cases ?mid)
    from my n have y0: "stepsLeft (snd ?mid youtube) = 0" by simp
    from mt n have t2: "2 \<le> stepsLeft (snd ?mid tiktok)" by simp
    from youtubeFirst_enter[of env video yid tid pm wm tm] im y0 t2
    have "writerFirst video ?Y ?T (snd ?mid youtube) (snd ?mid tiktok) (fst ?mid)"
      unfolding mid by simp
    from youtubeFirst_foldl[OF pf im this, of "drop n ?xs"]
    have "writerFirst video ?Y ?T (snd (foldl ?adv ?st0 ?xs) youtube)
        (snd (foldl ?adv ?st0 ?xs) tiktok) (fst (foldl ?adv ?st0 ?xs))"
      by (simp only: foldl_append[symmetric] append_take_drop_id)
    with ts have "storedPosts (fst (foldl ?adv ?st0 ?xs)) video [?Y, ?T]"
      by (simp add: writerFirst_def stepsLeft_def)
    with sp show ?thesis by (rule storedPosts_unique)
  qed
  have tfirst: "ps = [?T, ?Y]" if "tiktokBeforeYouTube ?xs"
  proof -
    from that obtain n where n: "3 \<le> count_list (take n ?xs) tiktok"
      "count_list (take n ?xs) youtube \<le> 2"
      using tiktokBeforeYouTubeD by blast
    let ?mid = "foldl ?adv ?st0 (take n ?xs)"
    from raceInv_foldl[OF pf inv0, of "take n ?xs"] obtain pm where
      im: "raceInv env video yid tid pm ?mid"
      and my': "stepsLeft (snd ?mid youtube)
          = stepsLeft (snd ?st0 youtube) - count_list (take n ?xs) youtube"
      and mt': "stepsLeft (snd ?mid tiktok)
          = stepsLeft (snd ?st0 tiktok) - count_list (take n ?xs) tiktok"
      by blast
    from my' have my: "stepsLeft (snd ?mid youtube) = 4 - count_list (take n ?xs) youtube"
      by (simp only: r0)
    from mt' have mt: "stepsLeft (snd ?mid tiktok) = 3 - count_list (take n ?xs) tiktok"
      by (simp only: r0)
    obtain wm tm where mid: "?mid = (wm, tm)" by (cases ?mid)
    from mt n have t0: "stepsLeft (snd ?mid tiktok) = 0" by simp
    from my n have y2: "2 \<le> stepsLeft (snd ?mid youtube)" by simp
    from tiktokFirst_enter[of env video yid tid pm wm tm] im t0 y2
    have "writerFirst video ?T ?Y (snd ?mid tiktok) (snd ?mid youtube) (fst ?mid)"
      unfolding mid by simp
    from tiktokFirst_foldl[OF pf im this, of "drop n ?xs"]
    have "writerFirst video ?T ?Y (snd (foldl ?adv ?st0 ?xs) tiktok)
        (snd (foldl ?adv ?st0 ?xs) youtube) (fst (foldl ?adv ?st0 ?xs))"
      by (simp only: foldl_append[symmetric] append_take_drop_id)
    with ys have "storedPosts (fst (foldl ?adv ?st0 ?xs)) video [?T, ?Y]"
      by (simp add: writerFirst_def stepsLeft_def)
    with sp show ?thesis by (rule storedPosts_unique)
  qed
  from sp mem yfirst tfirst show ?thesis
    unfolding postToAllPlatforms_def by blast
qed

section \<open>The workflow around the fan-out\<close>

lemmas store_defs = createJob_def updateJobStatus_def saveTrendingTopics_def getVideosByNiche_def
  saveVideoMetadata_def updateVideoStatus_def

lemma postToYouTube_frame:
  "jobs (fst (postToYouTube env vid buf desc tags account t w)) = jobs w
   \<and> jobLog (fst (postToYouTube env vid buf desc tags account t w)) = jobLog w
   \<and> trending (fst (postToYouTube env vid buf desc tags account t w)) = trending w
   \<and> niches (fst (postToYouTube env vid buf desc tags account t w)) = niches w"
  by (cases t) (simp_all add: postToYouTube_def saveVideoMetadata_def split: sum.splits option.splits)

lemma postToInstagram_frame:
  "jobs (fst (postToInstagram env vid desc tags niche t w)) = jobs w
   \<and> jobLog (fst (postToInstagram env vid desc tags niche t w)) = jobLog w
   \<and> trending (fst (postToInstagram env vid desc tags niche t w)) = trending w
   \<and> niches (fst (postToInstagram env vid desc tags niche t w)) = niches w"
  by (cases t) (simp_all add: postToInstagram_def saveVideoMetadata_def Let_def split: sum.splits option.splits)

lemma postToTikTok_frame:
  "jobs (fst (postToTikTok env vid buf desc tags tok t w)) = jobs w
   \<and> jobLog (fst (postToTikTok env vid buf desc tags tok t w)) = jobLog w
   \<and> trending (fst (postToTikTok env vid buf desc tags tok t w)) = trending w
   \<and> niches (fst (postToTikTok env vid buf desc tags tok t w)) = niches w"
  by (cases t) (simp_all add: postToTikTok_def saveVideoMetadata_def Let_def split: sum.splits option.splits)

lemma advance_frame:
  "jobs (fst (advance env vid buf desc tags niche st p)) = jobs (fst st)
   \<and> jobLog (fst (advance env vid buf desc tags niche st p)) = jobLog (fst st)
   \<and> trending (fst (advance env vid buf desc tags niche st p)) = trending (fst st)
   \<and> niches (fst (advance env vid buf desc tags niche st p)) = niches (fst st)"
proof -
  obtain w tasks where st: "st = (w, tasks)" by (cases st)
  show ?thesis
  proof (cases p)
    case youtube
    show ?thesis
    proof (cases "sa_youtube (cn_socialAccounts niche)")
      case None
      with youtube st show ?thesis by (simp add: advance_def)
    next
      case (Some account)
      with youtube st postToYouTube_frame[of env vid buf desc tags account "tasks youtube" w]
      show ?thesis by (auto simp: advance_def split: prod.splits)
    qed
  next
    case instagram
    with st postToInstagram_frame[of env vid desc tags niche "tasks instagram" w]
    show ?thesis by (auto simp: advance_def split: prod.splits)
  next
    case tiktok
    show ?thesis
    proof (cases "tiktokToken niche")
      case None
      with tiktok st show ?thesis by (simp add: advance_def)
    next
      case (Some tok)
      with tiktok st postToTikTok_frame[of env vid buf desc tags tok "tasks tiktok" w]
      show ?thesis by (auto simp: advance_def split: prod.splits)
    qed
  qed
qed

lemma foldl_advance_frame:
  "jobs (fst (foldl (advance env vid buf desc tags niche) st xs)) = jobs (fst st)
   \<and> jobLog (fst (foldl (advance env vid buf desc tags niche) st xs)) = jobLog (fst st)
   \<and> trending (fst (foldl (advance env vid buf desc tags niche) st xs)) = trending (fst st)
   \<and> niches (fst (foldl (advance env vid buf desc tags niche) st xs)) = niches (fst st)"
proof (induction xs arbitrary: st)
  case Nil
  show ?case by simp
next
  case (Cons x xs)
  from Cons.IH[of "advance env vid buf desc tags niche st x"]
    advance_frame[of env vid buf desc tags niche st x]
  show ?case by simp
qed

lemma postToAllPlatforms_frame:
  "jobs (postToAllPlatforms env schedule vid buf desc tags niche w) = jobs w
   \<and> jobLog (postToAllPlatforms env schedule vid buf desc tags niche w) = jobLog w
   \<and> trending (postToAllPlatforms env schedule vid buf desc tags niche w) = trending w
   \<and> niches (postToAllPlatforms env schedule vid buf desc tags niche w) = niches w"
  using foldl_advance_frame[of env vid buf desc tags niche "(w, startTask niche)" "schedule @ settleOrder"]
  by (simp add: postToAllPlatforms_def)

lemma run_to_fanout:
  assumes faults: "\<forall>c. dbFault env c = None"
    and topics: "getTrendingForNiche env (cn_name niche) (cn_keywords niche) = Inr topics"
    and prompt: "generatePrompt env (promptRequest env niche topics w) = Inr pr"
    and video: "generateVideo env \<lparr>vr_prompt = pg_prompt pr, vr_niche = cn_id niche\<rparr> = Inr vr"
    and download: "downloadVideo env (vg_videoUrl vr) = Inr buf"
    and upload: "uploadVideo env buf (uuidv4 env) (cn_id niche) = Inr (url, path)"
  shows "generateAndPostVideo env schedule niche w =
    (case andThen
       (updateJobStatus env (newJobId env) job_completed None
         (postToAllPlatforms env schedule (uuidv4 env) buf (pg_description pr)
            (pg_suggestedHashtags pr) niche
            (w\<lparr>jobs := (jobs w)(newJobId env \<mapsto> runningJob env niche),
               jobLog := jobLog w @ [(newJobId env, job_queued), (newJobId env, job_running)],
               trending := trending w @ topics,
               videos := (videos w)(uuidv4 env \<mapsto> readyVideo env niche pr vr url path)\<rparr>)))
       (\<lambda>u w. andThen (updateVideoStatus env (uuidv4 env) video_posted w)
          (\<lambda>u w. (w, Inr (uuidv4 env)))) of
       (w2, Inr videoId) \<Rightarrow> (w2, Inr videoId)
     | (w2, Inl error) \<Rightarrow>
         (if newJobId env \<noteq> [] then
            (case updateJobStatus env (newJobId env) job_failed (Some (message error)) w2 of
               (w3, Inl error') \<Rightarrow> (w3, Inl error')
             | (w3, Inr u) \<Rightarrow> (w3, Inl error))
          else (w2, Inl error)))"
proof -
  have a: "andThen (w', Inr x) f = f x w'" for w' :: world and x :: 'a
      and f :: "'a \<Rightarrow> world \<Rightarrow> world \<times> (js_error + 'b)"
    by (simp add: andThen_def)
  from faults have nf: "dbFault env c = None" for c by simp
  show ?thesis
    using topics prompt video download upload
    by (cases "topics = []")
       (simp_all add: generateAndPostVideo_def workflowSteps_def a lift_def
          createJob_def updateJobStatus_def[of env _ job_running] saveTrendingTopics_def
          getVideosByNiche_def saveVideoMetadata_def nf
          promptRequest_def readyVideo_def runningJob_def
          updateJobDoc_def applyUpdates_def buildUpdates_def truthy_def Let_def
          cong: if_cong)
qed

text \<open>
  The fan-out writes the record of its own video only: a call saves the record it has
  read with one entry added, under the same id.
\<close>

lemma taskInv_save_id:
  "taskInv env buf desc tags niche video p (AwaitSaveVideo c) \<Longrightarrow> vm_id c = vm_id video"
  by (auto simp: taskInv_def extendsWith_def)

lemma postToYouTube_videos:
  assumes T: "taskInv env buf desc tags niche video youtube t" and k: "k \<noteq> vm_id video"
  shows "videos (fst (postToYouTube env (vm_id video) buf desc tags account t w)) k = videos w k"
proof (cases t)
  case (AwaitSaveVideo c)
  with T have "vm_id c = vm_id video" by (simp add: taskInv_save_id)
  with AwaitSaveVideo k show ?thesis
    by (simp add: postToYouTube_def saveVideoMetadata_def split: option.splits)
qed (simp_all add: postToYouTube_def split: sum.splits option.splits)

lemma postToTikTok_videos:
  assumes T: "taskInv env buf desc tags niche video tiktok t" and k: "k \<noteq> vm_id video"
  shows "videos (fst (postToTikTok env (vm_id video) buf desc tags tok t w)) k = videos w k"
proof (cases t)
  case (AwaitSaveVideo c)
  with T have "vm_id c = vm_id video" by (simp add: taskInv_save_id)
  with AwaitSaveVideo k show ?thesis
    by (simp add: postToTikTok_def saveVideoMetadata_def split: option.splits)
qed (simp_all add: postToTikTok_def Let_def split: sum.splits option.splits)

lemma postToInstagram_videos:
  assumes T: "taskInv env buf desc tags niche video instagram t" and k: "k \<noteq> vm_id video"
  shows "videos (fst (postToInstagram env (vm_id video) desc tags niche t w)) k = videos w k"
proof (cases t)
  case (AwaitSaveVideo c)
  with T have "vm_id c = vm_id video" by (simp add: taskInv_save_id)
  with AwaitSaveVideo k show ?thesis
    by (simp add: postToInstagram_def saveVideoMetadata_def split: option.splits)
qed (simp_all add: postToInstagram_def Let_def split: sum.splits option.splits)

lemma advance_videos:
  assumes inv: "fanoutInv env buf desc tags niche video st" and k: "k \<noteq> vm_id video"
  shows "videos (fst (advance env (vm_id video) buf desc tags niche st p)) k = videos (fst st) k"
proof -
  obtain w tasks where st: "st = (w, tasks)" by (cases st)
  from inv st have T: "\<And>q. taskInv env buf desc tags niche video q (tasks q)"
    by (simp add: fanoutInv_def)
  show ?thesis
  proof (cases p)
    case youtube
    show ?thesis
    proof (cases "sa_youtube (cn_socialAccounts niche)")
      case None
      with youtube st show ?thesis by (simp add: advance_def)
    next
      case (Some account)
      with youtube st postToYouTube_videos[OF T[of youtube] k, where account=account and w=w]
      show ?thesis by (auto simp: advance_def split: prod.splits)
    qed
  next
    case instagram
    with st postToInstagram_videos[OF T[of instagram] k, where w=w]
    show ?thesis by (auto simp: advance_def split: prod.splits)
  next
    case tiktok
    show ?thesis
    proof (cases "tiktokToken niche")
      case None
      with tiktok st show ?thesis by (simp add: advance_def)
    next
      case (Some tok)
      with tiktok st postToTikTok_videos[OF T[of tiktok] k, where tok=tok and w=w]
      show ?thesis by (auto simp: advance_def split: prod.splits)
    qed
  qed
qed

lemma foldl_advance_videos:
  assumes "fanoutInv env buf desc tags niche video st" and "k \<noteq> vm_id video"
  shows "videos (fst (foldl (advance env (vm_id video) buf desc tags niche) st xs)) k = videos (fst st) k"
  using assms
proof (induction xs arbitrary: st)
  case Nil
  show ?case by simp
next
  case (Cons x xs)
  from Cons.IH[OF fanoutInv_advance[OF Cons.prems(1)] Cons.prems(2), of x]
    advance_videos[OF Cons.prems, of x]
  show ?case by simp
qed

lemma postToAllPlatforms_videos:
  assumes stored: "videos w (vm_id video) = Some video"
  shows "(\<exists>added. videos (postToAllPlatforms env schedule (vm_id video) buf desc tags niche w) (vm_id video)
            = Some (video\<lparr>vm_platforms := vm_platforms video @ added\<rparr>))
     \<and> (\<forall>k. k \<noteq> vm_id video \<longrightarrow>
          videos (postToAllPlatforms env schedule (vm_id video) buf desc tags niche w) k = videos w k)"
proof -
  from stored have start: "fanoutInv env buf desc tags niche video (w, startTask niche)"
    by (rule fanoutInv_start)
  from fanoutInv_foldl[OF start, of "schedule @ settleOrder"]
  have a: "\<exists>added. videos (postToAllPlatforms env schedule (vm_id video) buf desc tags niche w) (vm_id video)
            = Some (video\<lparr>vm_platforms := vm_platforms video @ added\<rparr>)"
    by (auto simp: fanoutInv_def storeInv_def extendsWith_def postToAllPlatforms_def)
  from foldl_advance_videos[OF start, of _ "schedule @ settleOrder"]
  have b: "\<forall>k. k \<noteq> vm_id video \<longrightarrow>
          videos (postToAllPlatforms env schedule (vm_id video) buf desc tags niche w) k = videos w k"
    by (simp add: postToAllPlatforms_def)
  from a b show ?thesis by (rule conjI)
qed

text \<open>
  A run in which no store call fails and the pipeline up to the upload succeeds: the
  fan-out never throws, so the run returns the video id, the job is completed and the
  video is posted, whatever the platform calls did.
\<close>

lemma run_succeeds:
  assumes faults: "\<forall>c. dbFault env c = None"
    and topics: "getTrendingForNiche env (cn_name niche) (cn_keywords niche) = Inr topics"
    and prompt: "generatePrompt env (promptRequest env niche topics w) = Inr pr"
    and video: "generateVideo env \<lparr>vr_prompt = pg_prompt pr, vr_niche = cn_id niche\<rparr> = Inr vr"
    and download: "downloadVideo env (vg_videoUrl vr) = Inr buf"
    and upload: "uploadVideo env buf (uuidv4 env) (cn_id niche) = Inr (url, path)"
  shows "snd (generateAndPostVideo env schedule niche w) = Inr (uuidv4 env)
    \<and> jobLog (fst (generateAndPostVideo env schedule niche w)) =
        jobLog w @ [(newJobId env, job_queued), (newJobId env, job_running),
                    (newJobId env, job_completed)]
    \<and> jobs (fst (generateAndPostVideo env schedule niche w)) =
        (jobs w)(newJobId env \<mapsto> completedJob env niche)
    \<and> (\<exists>added. videos (fst (generateAndPostVideo env schedule niche w)) (uuidv4 env) =
          Some ((readyVideo env niche pr vr url path)\<lparr>vm_platforms := added, vm_status := video_posted\<rparr>))
    \<and> (\<forall>k. k \<noteq> uuidv4 env \<longrightarrow>
          videos (fst (generateAndPostVideo env schedule niche w)) k = videos w k)"
proof -
  let ?video = "readyVideo env niche pr vr url path"
  let ?wB = "w\<lparr>jobs := (jobs w)(newJobId env \<mapsto> runningJob env niche),
               jobLog := jobLog w @ [(newJobId env, job_queued), (newJobId env, job_running)],
               trending := trending w @ topics,
               videos := (videos w)(uuidv4 env \<mapsto> ?video)\<rparr>"
  let ?wC = "postToAllPlatforms env schedule (uuidv4 env) buf (pg_description pr)
            (pg_suggestedHashtags pr) niche ?wB"
  from faults have nf: "dbFault env c = None" for c by simp
  have vid: "vm_id ?video = uuidv4 env" "vm_platforms ?video = []"
    by (simp_all add: readyVideo_def)
  have stored: "videos ?wB (vm_id ?video) = Some ?video"
    by (simp add: vid)
  from postToAllPlatforms_videos[OF stored, of env schedule buf "pg_description pr"
      "pg_suggestedHashtags pr" niche] vid
  obtain added where vC: "videos ?wC (uuidv4 env) = Some (?video\<lparr>vm_platforms := added\<rparr>)"
    and others: "\<forall>k. k \<noteq> uuidv4 env \<longrightarrow> videos ?wC k = videos ?wB k"
    by auto
  from postToAllPlatforms_frame[of env schedule "uuidv4 env" buf "pg_description pr"
      "pg_suggestedHashtags pr" niche ?wB]
  have jC: "jobs ?wC = (jobs w)(newJobId env \<mapsto> runningJob env niche)"
    and lC: "jobLog ?wC = jobLog w @ [(newJobId env, job_queued), (newJobId env, job_running)]"
    by simp_all
  have run: "generateAndPostVideo env schedule niche w =
      (?wC\<lparr>jobs := (jobs ?wC)(newJobId env \<mapsto>
            updateJobDoc (runningJob env niche)
              (job_completed, None, clockAt env (UpdateJobStatus job_completed))),
          jobLog := jobLog ?wC @ [(newJobId env, job_completed)],
          videos := (videos ?wC)(uuidv4 env \<mapsto>
            ?video\<lparr>vm_platforms := added, vm_status := video_posted\<rparr>)\<rparr>,
       Inr (uuidv4 env))"
    unfolding run_to_fanout[OF faults topics prompt video download upload]
    using jC vC
    by (simp add: andThen_def updateJobStatus_def updateVideoStatus_def nf)
  have st: "updateJobDoc (runningJob env niche)
              (job_completed, None, clockAt env (UpdateJobStatus job_completed)) = completedJob env niche"
    by (simp add: updateJobDoc_def applyUpdates_def buildUpdates_def Let_def runningJob_def
        completedJob_def truthy_def)
  from others have others': "\<forall>k. k \<noteq> uuidv4 env \<longrightarrow> videos ?wC k = videos w k"
    by simp
  have ex: "\<exists>added'. videos (fst (generateAndPostVideo env schedule niche w)) (uuidv4 env) =
      Some (?video\<lparr>vm_platforms := added', vm_status := video_posted\<rparr>)"
    unfolding run by (rule exI[of _ added]) simp
  from jC lC others' have rest: "snd (generateAndPostVideo env schedule niche w) = Inr (uuidv4 env)
    \<and> jobLog (fst (generateAndPostVideo env schedule niche w)) =
        jobLog w @ [(newJobId env, job_queued), (newJobId env, job_running),
                    (newJobId env, job_completed)]
    \<and> jobs (fst (generateAndPostVideo env schedule niche w)) =
        (jobs w)(newJobId env \<mapsto> completedJob env niche)
    \<and> (\<forall>k. k \<noteq> uuidv4 env \<longrightarrow>
          videos (fst (generateAndPostVideo env schedule niche w)) k = videos w k)"
    unfolding run st by simp
  from ex rest show ?thesis by blast
qed


text \<open>
  The partial-failure scenario under every schedule: no store call fails, the pipeline
  up to the fan-out succeeds, the niche holds the three credentials, the YouTube and
  TikTok services succeed and the Instagram service throws. The run returns the video
  id without throwing, the job ends completed, the video ends posted, and no entry of
  Instagram is written. In the schedules in which one of the two successful calls has
  written the record before the other reads it, the platforms list holds the two posted
  entries of YouTube and TikTok. In the schedules in which their reads and writes
  overlap, an entry is lost.
\<close>

theorem partial_failure_isolation:
  assumes faults: "\<forall>c. dbFault env c = None"
    and topics: "getTrendingForNiche env (cn_name niche) (cn_keywords niche) = Inr topics"
    and prompt: "generatePrompt env (promptRequest env niche topics w) = Inr pr"
    and video: "generateVideo env \<lparr>vr_prompt = pg_prompt pr, vr_niche = cn_id niche\<rparr> = Inr vr"
    and download: "downloadVideo env (vg_videoUrl vr) = Inr buf"
    and upload: "uploadVideo env buf (uuidv4 env) (cn_id niche) = Inr (url, path)"
    and youtubeOk: "sa_youtube (cn_socialAccounts niche) = Some ya"
      "setCredentials env (refreshToken ya) = Inr ()"
      "uploadShortFromBuffer env buf (generateTitle (pg_description pr)) (pg_description pr)
         (pg_suggestedHashtags pr) = Inr yid"
    and instagramThrows: "sa_instagram (cn_socialAccounts niche) = Some ia"
      "postReel env (ig_accessToken ia) (accountId ia) url
         (pg_description pr @ [CHR 0x0A, CHR 0x0A] @ hashtagLine (pg_suggestedHashtags pr)) = Inl e"
    and tiktokOk: "tiktokToken niche = Some tok" "tok \<noteq> []"
      "postVideo env tok buf (pg_description pr @ '' '' @ hashtagLine (pg_suggestedHashtags pr))
         = Inr tid"
  shows "snd (generateAndPostVideo env schedule niche w) = Inr (uuidv4 env)
    \<and> (\<exists>job. jobs (fst (generateAndPostVideo env schedule niche w)) (newJobId env) = Some job
          \<and> wj_status job = job_completed)
    \<and> (\<exists>v. videos (fst (generateAndPostVideo env schedule niche w)) (uuidv4 env) = Some v
          \<and> vm_status v = video_posted
          \<and> vm_platforms v \<in> set [[youtubePost env yid], [tiktokPost env tid],
                [youtubePost env yid, tiktokPost env tid],
                [tiktokPost env tid, youtubePost env yid]]
          \<and> (youtubeBeforeTikTok (schedule @ settleOrder) \<longrightarrow>
                vm_platforms v = [youtubePost env yid, tiktokPost env tid])
          \<and> (tiktokBeforeYouTube (schedule @ settleOrder) \<longrightarrow>
                vm_platforms v = [tiktokPost env tid, youtubePost env yid]))"
proof -
  let ?video = "readyVideo env niche pr vr url path"
  let ?wB = "w\<lparr>jobs := (jobs w)(newJobId env \<mapsto> runningJob env niche),
               jobLog := jobLog w @ [(newJobId env, job_queued), (newJobId env, job_running)],
               trending := trending w @ topics,
               videos := (videos w)(uuidv4 env \<mapsto> ?video)\<rparr>"
  let ?wC = "postToAllPlatforms env schedule (uuidv4 env) buf (pg_description pr)
            (pg_suggestedHashtags pr) niche ?wB"
  from faults have nf: "dbFault env c = None" for c by simp
  have vid: "vm_id ?video = uuidv4 env" "vm_videoUrl ?video = url" "vm_platforms ?video = []"
    by (simp_all add: readyVideo_def)
  have pf: "partialFailure env buf (pg_description pr) (pg_suggestedHashtags pr) niche ?video yid tid"
    using youtubeOk instagramThrows tiktokOk nf vid
    by (simp add: partialFailure_def)
  have stored: "videos ?wB (vm_id ?video) = Some ?video"
    by (simp add: vid)
  from fanout_partial_failure[OF pf stored, of schedule] vid(1) obtain ps where
    sp: "storedPosts ?wC ?video ps"
    and mem: "ps \<in> set [[youtubePost env yid], [tiktokPost env tid],
                [youtubePost env yid, tiktokPost env tid],
                [tiktokPost env tid, youtubePost env yid]]"
    and yf: "youtubeBeforeTikTok (schedule @ settleOrder) \<longrightarrow>
                ps = [youtubePost env yid, tiktokPost env tid]"
    and tf: "tiktokBeforeYouTube (schedule @ settleOrder) \<longrightarrow>
                ps = [tiktokPost env tid, youtubePost env yid]"
    by auto
  from sp vid(1) have vC: "videos ?wC (uuidv4 env) = Some (?video\<lparr>vm_platforms := ps\<rparr>)"
    by (simp add: storedPosts_def)
  from postToAllPlatforms_frame[of env schedule "uuidv4 env" buf "pg_description pr"
      "pg_suggestedHashtags pr" niche ?wB]
  have jC: "jobs ?wC (newJobId env) = Some (runningJob env niche)"
    by simp
  have run: "generateAndPostVideo env schedule niche w =
      (?wC\<lparr>jobs := (jobs ?wC)(newJobId env \<mapsto>
            updateJobDoc (runningJob env niche)
              (job_completed, None, clockAt env (UpdateJobStatus job_completed))),
          jobLog := jobLog ?wC @ [(newJobId env, job_completed)],
          videos := (videos ?wC)(uuidv4 env \<mapsto>
            ?video\<lparr>vm_platforms := ps, vm_status := video_posted\<rparr>)\<rparr>,
       Inr (uuidv4 env))"
    unfolding run_to_fanout[OF faults topics prompt video download upload]
    using jC vC
    by (simp add: andThen_def updateJobStatus_def updateVideoStatus_def nf)
  have st: "wj_status (updateJobDoc (runningJob env niche)
              (job_completed, None, clockAt env (UpdateJobStatus job_completed))) = job_completed"
    by (simp add: updateJobDoc_def applyUpdates_def buildUpdates_def Let_def)
  from mem yf tf st show ?thesis
    unfolding run by simp
qed


section \<open>Dispatch\<close>

lemma wellFormed_start: "wellFormed niche p (startTask niche p)"
  by (cases p) (auto simp: wellFormed_def startTask_def)

lemma dispatched_youtube: "youtube \<in> set (dispatched niche) \<longleftrightarrow> sa_youtube (cn_socialAccounts niche) \<noteq> None"
  by (simp add: dispatched_def)

lemma dispatched_instagram: "instagram \<in> set (dispatched niche) \<longleftrightarrow> sa_instagram (cn_socialAccounts niche) \<noteq> None"
  by (simp add: dispatched_def)

lemma dispatched_tiktok: "tiktok \<in> set (dispatched niche) \<longleftrightarrow> truthy (tiktokToken niche)"
  by (simp add: dispatched_def)

lemma postToYouTube_progress:
  assumes "wellFormed niche youtube t"
  shows "wellFormed niche youtube (snd (postToYouTube env vid buf desc tags account t w))
     \<and> stepsLeft (snd (postToYouTube env vid buf desc tags account t w)) \<le> stepsLeft t - 1"
  using assms
  by (cases t)
     (auto simp: wellFormed_def postToYouTube_def stepsLeft_def split: sum.splits option.splits)

lemma postToTikTok_progress:
  assumes "wellFormed niche tiktok t"
  shows "wellFormed niche tiktok (snd (postToTikTok env vid buf desc tags tok t w))
     \<and> stepsLeft (snd (postToTikTok env vid buf desc tags tok t w)) \<le> stepsLeft t - 1"
  using assms
  by (cases t)
     (auto simp: wellFormed_def postToTikTok_def stepsLeft_def Let_def split: sum.splits option.splits)

lemma postToInstagram_progress:
  assumes "wellFormed niche instagram t"
  shows "wellFormed niche instagram (snd (postToInstagram env vid desc tags niche t w))
     \<and> stepsLeft (snd (postToInstagram env vid desc tags niche t w)) \<le> stepsLeft t - 1"
  using assms
  by (cases t)
     (auto simp: wellFormed_def postToInstagram_def stepsLeft_def Let_def split: sum.splits option.splits)

lemma advance_progress:
  assumes wf: "\<And>q. wellFormed niche q (snd st q)"
  shows "(\<forall>q. wellFormed niche q (snd (advance env vid buf desc tags niche st p) q))
     \<and> (\<forall>q. stepsLeft (snd (advance env vid buf desc tags niche st p) q)
            \<le> stepsLeft (snd st q) - (if q = p then 1 else 0))"
proof -
  obtain w tasks where st: "st = (w, tasks)" by (cases st)
  from wf st have wf': "\<And>q. wellFormed niche q (tasks q)" by simp
  show ?thesis
  proof (cases p)
    case youtube
    show ?thesis
    proof (cases "sa_youtube (cn_socialAccounts niche)")
      case None
      with wf'[of youtube] have "tasks youtube = NotDispatched"
        by (simp add: wellFormed_def dispatched_youtube)
      with youtube st None wf' show ?thesis
        by (simp add: advance_def stepsLeft_def)
    next
      case (Some account)
      with youtube st wf' postToYouTube_progress[OF wf'[of youtube], of env vid buf desc tags account w]
      show ?thesis by (auto simp: advance_def split: prod.splits)
    qed
  next
    case instagram
    with st wf' postToInstagram_progress[OF wf'[of instagram], of env vid desc tags w]
    show ?thesis by (auto simp: advance_def split: prod.splits)
  next
    case tiktok
    show ?thesis
    proof (cases "tiktokToken niche")
      case None
      with wf'[of tiktok] have "tasks tiktok = NotDispatched"
        by (simp add: wellFormed_def dispatched_tiktok truthy_def)
      with tiktok st None wf' show ?thesis
        by (simp add: advance_def stepsLeft_def)
    next
      case (Some tok)
      with tiktok st wf' postToTikTok_progress[OF wf'[of tiktok], of env vid buf desc tags tok w]
      show ?thesis by (auto simp: advance_def split: prod.splits)
    qed
  qed
qed

lemma foldl_progress:
  "(\<And>q. wellFormed niche q (snd st q)) \<Longrightarrow>
   (\<forall>q. wellFormed niche q (snd (foldl (advance env vid buf desc tags niche) st xs) q))
     \<and> (\<forall>q. stepsLeft (snd (foldl (advance env vid buf desc tags niche) st xs) q)
            \<le> stepsLeft (snd st q) - count_list xs q)"
proof (induction xs arbitrary: st)
  case Nil
  then show ?case by simp
next
  case (Cons x xs)
  from advance_progress[of niche st env vid buf desc tags x] Cons.prems
  have a: "\<And>q. wellFormed niche q (snd (advance env vid buf desc tags niche st x) q)"
    and b: "\<And>q. stepsLeft (snd (advance env vid buf desc tags niche st x) q)
            \<le> stepsLeft (snd st q) - (if q = x then 1 else 0)"
    by blast+
  from Cons.IH[of "advance env vid buf desc tags niche st x"] a
  have c: "\<And>q. wellFormed niche q
        (snd (foldl (advance env vid buf desc tags niche) (advance env vid buf desc tags niche st x) xs) q)"
    and d: "\<And>q. stepsLeft
        (snd (foldl (advance env vid buf desc tags niche) (advance env vid buf desc tags niche st x) xs) q)
            \<le> stepsLeft (snd (advance env vid buf desc tags niche st x) q) - count_list xs q"
    by blast+
  show ?case
  proof (intro conjI allI)
    fix q
    show "wellFormed niche q (snd (foldl (advance env vid buf desc tags niche) st (x # xs)) q)"
      using c[of q] by simp
    show "stepsLeft (snd (foldl (advance env vid buf desc tags niche) st (x # xs)) q)
            \<le> stepsLeft (snd st q) - count_list (x # xs) q"
      using d[of q] b[of q] by (simp split: if_splits)
  qed
qed

lemma stepsLeft_start: "stepsLeft (startTask niche q) \<le> count_list settleOrder q"
  by (cases q) (auto simp: startTask_def stepsLeft_def settleOrder_def)

lemma tasksAfterFanout_settled:
  "wellFormed niche p (tasksAfterFanout env schedule vid buf desc tags niche w p)
   \<and> stepsLeft (tasksAfterFanout env schedule vid buf desc tags niche w p) = 0"
proof -
  from foldl_progress[of niche "(w, startTask niche)" env vid buf desc tags "schedule @ settleOrder"]
    wellFormed_start[of niche]
  have a: "wellFormed niche p (tasksAfterFanout env schedule vid buf desc tags niche w p)"
    and b: "stepsLeft (tasksAfterFanout env schedule vid buf desc tags niche w p)
      \<le> stepsLeft (startTask niche p) - count_list (schedule @ settleOrder) p"
    unfolding tasksAfterFanout_def by simp_all
  from b stepsLeft_start[of niche p]
  have "stepsLeft (tasksAfterFanout env schedule vid buf desc tags niche w p) = 0" by simp
  with a show ?thesis by simp
qed

text \<open>
  C3, as the code has it. Whatever the schedule, after the fan-out the call of a platform
  has run and settled exactly when the platform was dispatched, and was never started
  otherwise. YouTube and Instagram are dispatched exactly when their account object is
  present on the niche; TikTok is dispatched exactly when its account object is present
  and carries a non-empty access token.
\<close>

theorem dispatch_guards:
  "(tasksAfterFanout env schedule videoId videoBuffer description hashtags niche w p = Settled)
      = (p \<in> set (dispatched niche))
   \<and> (tasksAfterFanout env schedule videoId videoBuffer description hashtags niche w p = NotDispatched)
      = (p \<notin> set (dispatched niche))
   \<and> (youtube \<in> set (dispatched niche)) = (sa_youtube (cn_socialAccounts niche) \<noteq> None)
   \<and> (instagram \<in> set (dispatched niche)) = (sa_instagram (cn_socialAccounts niche) \<noteq> None)
   \<and> (tiktok \<in> set (dispatched niche)) =
       (\<exists>account token. sa_tiktok (cn_socialAccounts niche) = Some account
          \<and> tt_accessToken account = Some token \<and> token \<noteq> [])"
proof -
  let ?t = "tasksAfterFanout env schedule videoId videoBuffer description hashtags niche w p"
  from tasksAfterFanout_settled[of niche p env schedule videoId videoBuffer description hashtags w]
  have wf: "wellFormed niche p ?t" and z: "stepsLeft ?t = 0" by simp_all
  from z have "?t = Settled \<or> ?t = NotDispatched"
    by (cases ?t) (simp_all add: stepsLeft_def split: if_splits)
  with wf have a: "(?t = Settled) = (p \<in> set (dispatched niche))"
    and b: "(?t = NotDispatched) = (p \<notin> set (dispatched niche))"
    by (auto simp: wellFormed_def)
  have c: "(tiktok \<in> set (dispatched niche)) =
       (\<exists>account token. sa_tiktok (cn_socialAccounts niche) = Some account
          \<and> tt_accessToken account = Some token \<and> token \<noteq> [])"
    by (auto simp: dispatched_def tiktokToken_def truthy_def split: option.splits)
  from a b c dispatched_youtube dispatched_instagram show ?thesis by simp
qed

section \<open>Failures before the fan-out\<close>

lemma run_video_generation_throws:
  assumes "newJobId env \<noteq> []"
    and "dbFault env CreateJob = None"
    and "dbFault env (UpdateJobStatus job_running) = None"
    and "dbFault env (UpdateJobStatus job_failed) = None"
    and "dbFault env GetVideosByNiche = None"
    and "getTrendingForNiche env (cn_name niche) (cn_keywords niche) = Inr topics"
    and "topics \<noteq> [] \<longrightarrow> dbFault env SaveTrendingTopics = None"
    and "generatePrompt env (promptRequest env niche topics w) = Inr pr"
    and "generateVideo env \<lparr>vr_prompt = pg_prompt pr, vr_niche = cn_id niche\<rparr> = Inl e"
  shows "generateAndPostVideo env schedule niche w =
    (w\<lparr>jobs := (jobs w)(newJobId env \<mapsto> failedJob env niche e),
        jobLog := jobLog w @ [(newJobId env, job_queued), (newJobId env, job_running),
                   (newJobId env, job_failed)],
        trending := trending w @ topics\<rparr>, Inl e)"
  using assms
  by (cases "topics = []")
     (simp_all add: generateAndPostVideo_def workflowSteps_def andThen_def lift_def store_defs
        promptRequest_def failedJob_def updateJobDoc_def applyUpdates_def buildUpdates_def
        truthy_def Let_def)

lemma run_topic_save_throws:
  assumes "newJobId env \<noteq> []"
    and "dbFault env CreateJob = None"
    and "dbFault env (UpdateJobStatus job_running) = None"
    and "dbFault env (UpdateJobStatus job_failed) = None"
    and "getTrendingForNiche env (cn_name niche) (cn_keywords niche) = Inr topics"
    and "topics \<noteq> []"
    and "dbFault env SaveTrendingTopics = Some e"
  shows "generateAndPostVideo env schedule niche w =
    (w\<lparr>jobs := (jobs w)(newJobId env \<mapsto> failedJob env niche e),
        jobLog := jobLog w @ [(newJobId env, job_queued), (newJobId env, job_running),
                   (newJobId env, job_failed)]\<rparr>, Inl e)"
  using assms
  by (simp add: generateAndPostVideo_def workflowSteps_def andThen_def lift_def store_defs
        failedJob_def updateJobDoc_def applyUpdates_def buildUpdates_def
        truthy_def Let_def)

text \<open>
  C4, as the code has it. When the video-generation step throws, the created job has a
  non-empty id and the store accepts the write of the failed status, the run throws
  that same error to its caller, the job's status writes are queued, running, failed in
  this order, the job record ends failed and carries the error's message (no error
  field is written for an empty message), and no video record is written.
\<close>

theorem video_generation_failure:
  assumes "newJobId env \<noteq> []"
    and "dbFault env CreateJob = None"
    and "dbFault env (UpdateJobStatus job_running) = None"
    and "dbFault env (UpdateJobStatus job_failed) = None"
    and "dbFault env GetVideosByNiche = None"
    and "getTrendingForNiche env (cn_name niche) (cn_keywords niche) = Inr topics"
    and "topics \<noteq> [] \<longrightarrow> dbFault env SaveTrendingTopics = None"
    and "generatePrompt env (promptRequest env niche topics w) = Inr pr"
    and "generateVideo env \<lparr>vr_prompt = pg_prompt pr, vr_niche = cn_id niche\<rparr> = Inl e"
  shows "snd (generateAndPostVideo env schedule niche w) = Inl e
    \<and> jobLog (fst (generateAndPostVideo env schedule niche w)) =
        jobLog w @ [(newJobId env, job_queued), (newJobId env, job_running),
                    (newJobId env, job_failed)]
    \<and> (\<exists>job. jobs (fst (generateAndPostVideo env schedule niche w)) (newJobId env) = Some job
          \<and> wj_status job = job_failed
          \<and> wj_error job = (if message e = [] then None else Some (message e)))
    \<and> videos (fst (generateAndPostVideo env schedule niche w)) = videos w"
  unfolding run_video_generation_throws[OF assms]
  by (simp add: failedJob_def)

theorem video_generation_failure_witness:
  "snd (generateAndPostVideo generatorDown [] exampleNiche emptyWorld)
     = Inl (Error ''Video generation timed out'')
   \<and> jobLog (fst (generateAndPostVideo generatorDown [] exampleNiche emptyWorld))
     = [(''job-1'', job_queued), (''job-1'', job_running), (''job-1'', job_failed)]
   \<and> videos (fst (generateAndPostVideo generatorDown [] exampleNiche emptyWorld)) = Map.empty"
  using video_generation_failure [of generatorDown exampleNiche "[exampleTopic]" emptyWorld
      examplePrompt "Error ''Video generation timed out''" "[]"]
  by (simp add: generatorDown_def exampleEnv_def exampleNiche_def emptyWorld_def examplePrompt_def)

text \<open>
  C4 as stated fails: the video-generation step throws and the store then rejects the
  write of the failed status. The handler of the run awaits that write before it throws
  again, so the run ends with the store's error instead of the generation error, and
  the job stays running.
\<close>

theorem failed_status_write_rejected:
  "generateVideo failedWriteDown \<lparr>vr_prompt = pg_prompt examplePrompt, vr_niche = cn_id exampleNiche\<rparr>
     = Inl (Error ''Video generation timed out'')
   \<and> snd (generateAndPostVideo failedWriteDown [] exampleNiche emptyWorld) = Inl (Error ''store gone'')
   \<and> map_option wj_status
        (jobs (fst (generateAndPostVideo failedWriteDown [] exampleNiche emptyWorld)) ''job-1'')
       = Some job_running
   \<and> jobLog (fst (generateAndPostVideo failedWriteDown [] exampleNiche emptyWorld))
       = [(''job-1'', job_queued), (''job-1'', job_running)]"
  by code_simp

text \<open>
  C2, as the code has it. When the topic fetch returns a non-empty list and persisting
  the topics throws (the created job having a non-empty id and the store accepting the
  job status writes), the run is aborted: the error reaches the handler of the whole
  run, which marks the job failed with the error's message and throws the error to the
  caller; no topic and no video record is written.
\<close>

theorem topic_save_failure_aborts:
  assumes "newJobId env \<noteq> []"
    and "dbFault env CreateJob = None"
    and "dbFault env (UpdateJobStatus job_running) = None"
    and "dbFault env (UpdateJobStatus job_failed) = None"
    and "getTrendingForNiche env (cn_name niche) (cn_keywords niche) = Inr topics"
    and "topics \<noteq> []"
    and "dbFault env SaveTrendingTopics = Some e"
  shows "snd (generateAndPostVideo env schedule niche w) = Inl e
    \<and> jobLog (fst (generateAndPostVideo env schedule niche w)) =
        jobLog w @ [(newJobId env, job_queued), (newJobId env, job_running),
                    (newJobId env, job_failed)]
    \<and> (\<exists>job. jobs (fst (generateAndPostVideo env schedule niche w)) (newJobId env) = Some job
          \<and> wj_status job = job_failed
          \<and> wj_error job = (if message e = [] then None else Some (message e)))
    \<and> videos (fst (generateAndPostVideo env schedule niche w)) = videos w
    \<and> trending (fst (generateAndPostVideo env schedule niche w)) = trending w"
  unfolding run_topic_save_throws[OF assms]
  by (simp add: failedJob_def)

theorem topic_save_failure_aborts_witness:
  "snd (generateAndPostVideo topicStoreDown [] exampleNiche emptyWorld) = Inl (Error ''unavailable'')
   \<and> jobLog (fst (generateAndPostVideo topicStoreDown [] exampleNiche emptyWorld))
     = [(''job-1'', job_queued), (''job-1'', job_running), (''job-1'', job_failed)]"
  using topic_save_failure_aborts [of topicStoreDown exampleNiche "[exampleTopic]"
      "Error ''unavailable''" "[]" emptyWorld]
  by (simp add: topicStoreDown_def exampleEnv_def exampleNiche_def emptyWorld_def)

text \<open>
  C2 as stated fails: with the store refusing the topic write, the run ends with that
  error, the job is marked failed and no video exists.
\<close>

theorem topic_save_failure_not_ignored:
  "snd (generateAndPostVideo topicStoreDown [] exampleNiche emptyWorld) = Inl (Error ''unavailable'')
   \<and> map_option wj_status (jobs (fst (generateAndPostVideo topicStoreDown [] exampleNiche emptyWorld)) ''job-1'')
       = Some job_failed
   \<and> videos (fst (generateAndPostVideo topicStoreDown [] exampleNiche emptyWorld)) ''video-1'' = None"
  by code_simp

text \<open>
  C3 as stated fails: a niche whose TikTok account holds a username and no access token
  (the shape written by scripts/init-niches.ts) has the credential object, and the
  TikTok call is never started.
\<close>

theorem tiktok_username_only_not_dispatched:
  "sa_tiktok (cn_socialAccounts usernameOnlyNiche) \<noteq> None
   \<and> tiktok \<notin> set (dispatched usernameOnlyNiche)
   \<and> tasksAfterFanout exampleEnv [tiktok, tiktok, tiktok] ''video-1'' [1, 2, 3] ''Rise and shine''
        [''motivation''] usernameOnlyNiche exampleStore tiktok = NotDispatched"
  by code_simp

text \<open>
  C1 does not hold of the code. The niche holds the three credentials, the Instagram
  service throws and the YouTube and TikTok services succeed; the two successful calls
  both read the video record, with its empty platforms list, before either writes it
  back. Each call pushes its entry onto the list it has read and saves the whole
  record. The run completes and the job is completed, but the record ends with the
  TikTok entry only: the YouTube entry, written first, is overwritten by the save of
  TikTok.
\<close>

theorem lost_update_race:
  "snd (generateAndPostVideo exampleEnv raceSchedule exampleNiche emptyWorld) = Inr ''video-1''
   \<and> map_option vm_platforms
        (videos (fst (generateAndPostVideo exampleEnv raceSchedule exampleNiche emptyWorld)) ''video-1'')
       = Some [tiktokPost exampleEnv ''tt-1'']
   \<and> map_option wj_status
        (jobs (fst (generateAndPostVideo exampleEnv raceSchedule exampleNiche emptyWorld)) ''job-1'')
       = Some job_completed"
  by code_simp

section \<open>Retry\<close>

lemma andThen_Inr:
  "andThen r f = (w', Inr v) \<Longrightarrow> \<exists>w1 a. r = (w1, Inr a) \<and> f a w1 = (w', Inr v)"
  by (cases r) (auto simp: andThen_def split: sum.splits)

lemma updateVideoStatus_Inr:
  "updateVideoStatus env videoId status w = (w', Inr u) \<Longrightarrow>
   \<exists>video. videos w' videoId = Some video \<and> vm_status video = status"
  by (auto simp: updateVideoStatus_def split: option.splits)

lemma workflowSteps_Inr:
  assumes "workflowSteps env schedule niche jobId w = (w', Inr v)"
  shows "v = uuidv4 env \<and> (\<exists>video. videos w' v = Some video \<and> vm_status video = video_posted)"
  using assms
  apply (simp only: workflowSteps_def Let_def)
  apply (drule andThen_Inr, elim exE conjE)+
  apply (auto dest: updateVideoStatus_Inr)
  done

lemma run_Inr:
  assumes "generateAndPostVideo env schedule niche w = (w', Inr v)"
  shows "v = uuidv4 env \<and> (\<exists>video. videos w' v = Some video \<and> vm_status video = video_posted)"
proof -
  from assms obtain w1 jobId where "workflowSteps env schedule niche jobId w1 = (w', Inr v)"
    by (auto simp: generateAndPostVideo_def Let_def split: prod.splits sum.splits if_splits)
  then show ?thesis by (rule workflowSteps_Inr)
qed

text \<open>
  C6. A retry of a job that does not exist or is not in failed status throws and leaves
  the store as it was: no job and no video is created. A retry of a failed job whose
  niche resolves is one fresh run of the workflow for that niche, from the same store:
  same final store, same error if the run throws. When the run succeeds, its video id
  is the one drawn from uuidv4 in this run (nothing is read from the failed job), and
  the video record stored under it is posted. And the run does succeed when no store
  call fails and the pipeline up to the upload succeeds: the retry returns, it has
  created a job of its own under the id drawn for it, taken it from queued to running
  to completed and changed no other job record, and it has stored the new video,
  posted, under the id drawn from uuidv4, changing no other video record.
\<close>

theorem retry_semantics:
  "((jobs w jobId = None \<or> (\<exists>job. jobs w jobId = Some job \<and> wj_status job \<noteq> job_failed)) \<longrightarrow>
      (\<exists>error. retryFailedJob env schedule jobId w = (w, Inl error)))
   \<and> (dbFault env GetJob = None \<and> dbFault env GetContentNiche = None
       \<and> jobs w jobId = Some job \<and> wj_status job = job_failed
       \<and> niches w (wj_niche job) = Some niche \<longrightarrow>
         fst (retryFailedJob env schedule jobId w) = fst (generateAndPostVideo env schedule niche w)
         \<and> snd (retryFailedJob env schedule jobId w)
             = map_sum id (\<lambda>videoId. ()) (snd (generateAndPostVideo env schedule niche w))
         \<and> (\<forall>videoId. snd (generateAndPostVideo env schedule niche w) = Inr videoId \<longrightarrow>
               videoId = uuidv4 env
               \<and> (\<exists>video. videos (fst (retryFailedJob env schedule jobId w)) (uuidv4 env) = Some video
                     \<and> vm_status video = video_posted))
         \<and> ((\<forall>c. dbFault env c = None)
             \<and> getTrendingForNiche env (cn_name niche) (cn_keywords niche) = Inr topics
             \<and> generatePrompt env (promptRequest env niche topics w) = Inr pr
             \<and> generateVideo env \<lparr>vr_prompt = pg_prompt pr, vr_niche = cn_id niche\<rparr> = Inr vr
             \<and> downloadVideo env (vg_videoUrl vr) = Inr buf
             \<and> uploadVideo env buf (uuidv4 env) (cn_id niche) = Inr (url, path) \<longrightarrow>
               snd (retryFailedJob env schedule jobId w) = Inr ()
               \<and> jobLog (fst (retryFailedJob env schedule jobId w)) =
                   jobLog w @ [(newJobId env, job_queued), (newJobId env, job_running),
                               (newJobId env, job_completed)]
               \<and> jobs (fst (retryFailedJob env schedule jobId w)) =
                   (jobs w)(newJobId env \<mapsto> completedJob env niche)
               \<and> (\<exists>added. videos (fst (retryFailedJob env schedule jobId w)) (uuidv4 env) =
                     Some ((readyVideo env niche pr vr url path)
                             \<lparr>vm_platforms := added, vm_status := video_posted\<rparr>))
               \<and> (\<forall>k. k \<noteq> uuidv4 env \<longrightarrow>
                     videos (fst (retryFailedJob env schedule jobId w)) k = videos w k)))"
proof (intro conjI impI)
  assume "jobs w jobId = None \<or> (\<exists>job. jobs w jobId = Some job \<and> wj_status job \<noteq> job_failed)"
  then show "\<exists>error. retryFailedJob env schedule jobId w = (w, Inl error)"
    by (cases "dbFault env GetJob") (auto simp: retryFailedJob_def getJob_def)
next
  assume h: "dbFault env GetJob = None \<and> dbFault env GetContentNiche = None
       \<and> jobs w jobId = Some job \<and> wj_status job = job_failed
       \<and> niches w (wj_niche job) = Some niche"
  obtain w' r where run: "generateAndPostVideo env schedule niche w = (w', r)"
    by (cases "generateAndPostVideo env schedule niche w")
  from h run have retry: "retryFailedJob env schedule jobId w = (w', map_sum id (\<lambda>videoId. ()) r)"
    by (cases r) (simp_all add: retryFailedJob_def getJob_def getContentNiche_def)
  from retry run show fst_eq:
    "fst (retryFailedJob env schedule jobId w) = fst (generateAndPostVideo env schedule niche w)"
    by simp
  from retry run show "snd (retryFailedJob env schedule jobId w)
             = map_sum id (\<lambda>videoId. ()) (snd (generateAndPostVideo env schedule niche w))"
    by simp
  show "\<forall>videoId. snd (generateAndPostVideo env schedule niche w) = Inr videoId \<longrightarrow>
               videoId = uuidv4 env
               \<and> (\<exists>video. videos (fst (retryFailedJob env schedule jobId w)) (uuidv4 env) = Some video
                     \<and> vm_status video = video_posted)"
  proof (intro allI impI)
    fix videoId
    assume "snd (generateAndPostVideo env schedule niche w) = Inr videoId"
    with run have "generateAndPostVideo env schedule niche w = (w', Inr videoId)" by simp
    from run_Inr[OF this] retry show "videoId = uuidv4 env
               \<and> (\<exists>video. videos (fst (retryFailedJob env schedule jobId w)) (uuidv4 env) = Some video
                     \<and> vm_status video = video_posted)"
      by auto
  qed
  assume ok: "(\<forall>c. dbFault env c = None)
             \<and> getTrendingForNiche env (cn_name niche) (cn_keywords niche) = Inr topics
             \<and> generatePrompt env (promptRequest env niche topics w) = Inr pr
             \<and> generateVideo env \<lparr>vr_prompt = pg_prompt pr, vr_niche = cn_id niche\<rparr> = Inr vr
             \<and> downloadVideo env (vg_videoUrl vr) = Inr buf
             \<and> uploadVideo env buf (uuidv4 env) (cn_id niche) = Inr (url, path)"
  then have faults: "\<forall>c. dbFault env c = None"
    and topics: "getTrendingForNiche env (cn_name niche) (cn_keywords niche) = Inr topics"
    and prompt: "generatePrompt env (promptRequest env niche topics w) = Inr pr"
    and video: "generateVideo env \<lparr>vr_prompt = pg_prompt pr, vr_niche = cn_id niche\<rparr> = Inr vr"
    and download: "downloadVideo env (vg_videoUrl vr) = Inr buf"
    and upload: "uploadVideo env buf (uuidv4 env) (cn_id niche) = Inr (url, path)"
    by simp_all
  note s = run_succeeds[OF faults topics prompt video download upload, of schedule]
  from s run retry show "snd (retryFailedJob env schedule jobId w) = Inr ()"
    by simp
  from s show "jobLog (fst (retryFailedJob env schedule jobId w)) =
      jobLog w @ [(newJobId env, job_queued), (newJobId env, job_running),
                  (newJobId env, job_completed)]"
    unfolding fst_eq by (elim conjE)
  from s show "jobs (fst (retryFailedJob env schedule jobId w)) =
      (jobs w)(newJobId env \<mapsto> completedJob env niche)"
    unfolding fst_eq by (elim conjE)
  from s show "\<exists>added. videos (fst (retryFailedJob env schedule jobId w)) (uuidv4 env) =
      Some ((readyVideo env niche pr vr url path)\<lparr>vm_platforms := added, vm_status := video_posted\<rparr>)"
    unfolding fst_eq by (elim conjE)
  from s show "\<forall>k. k \<noteq> uuidv4 env \<longrightarrow>
      videos (fst (retryFailedJob env schedule jobId w)) k = videos w k"
    unfolding fst_eq by (elim conjE)
qed

section \<open>Instances\<close>

theorem retry_semantics_witness:
  "(\<exists>error. retryFailedJob exampleEnv [] ''job-9'' failedWorld = (failedWorld, Inl error))
   \<and> (\<exists>error. retryFailedJob exampleEnv [] ''job-7'' failedWorld = (failedWorld, Inl error))
   \<and> snd (retryFailedJob exampleEnv [] ''job-0'' failedWorld) = Inr ()
   \<and> jobLog (fst (retryFailedJob exampleEnv [] ''job-0'' failedWorld)) =
       [(''job-1'', job_queued), (''job-1'', job_running), (''job-1'', job_completed)]
   \<and> jobs (fst (retryFailedJob exampleEnv [] ''job-0'' failedWorld)) =
       (jobs failedWorld)(''job-1'' \<mapsto> completedJob exampleEnv exampleNiche)
   \<and> (\<exists>added. videos (fst (retryFailedJob exampleEnv [] ''job-0'' failedWorld)) ''video-1'' =
         Some (exampleVideo\<lparr>vm_platforms := added, vm_status := video_posted\<rparr>))"
proof -
  have a: "\<exists>error. retryFailedJob exampleEnv [] ''job-9'' failedWorld = (failedWorld, Inl error)"
    using retry_semantics [of failedWorld "''job-9''" exampleEnv "[]"]
    by (simp add: failedWorld_def exampleJob_def emptyWorld_def)
  have b: "\<exists>error. retryFailedJob exampleEnv [] ''job-7'' failedWorld = (failedWorld, Inl error)"
    using retry_semantics [of failedWorld "''job-7''" exampleEnv "[]"]
    by (simp add: failedWorld_def exampleJob_def emptyWorld_def)
  have ids: "uuidv4 exampleEnv = ''video-1''" "newJobId exampleEnv = ''job-1''"
    by (simp_all add: exampleEnv_def)
  have pre: "dbFault exampleEnv GetJob = None \<and> dbFault exampleEnv GetContentNiche = None
       \<and> jobs failedWorld ''job-0'' = Some (exampleJob\<lparr>wj_id := ''job-0'', wj_status := job_failed\<rparr>)
       \<and> wj_status (exampleJob\<lparr>wj_id := ''job-0'', wj_status := job_failed\<rparr>) = job_failed
       \<and> niches failedWorld (wj_niche (exampleJob\<lparr>wj_id := ''job-0'', wj_status := job_failed\<rparr>))
           = Some exampleNiche"
    by (simp add: failedWorld_def exampleJob_def emptyWorld_def exampleEnv_def)
  have ok: "(\<forall>c. dbFault exampleEnv c = None)
     \<and> getTrendingForNiche exampleEnv (cn_name exampleNiche) (cn_keywords exampleNiche) = Inr [exampleTopic]
     \<and> generatePrompt exampleEnv (promptRequest exampleEnv exampleNiche [exampleTopic] failedWorld)
         = Inr examplePrompt
     \<and> generateVideo exampleEnv \<lparr>vr_prompt = pg_prompt examplePrompt, vr_niche = cn_id exampleNiche\<rparr>
         = Inr exampleVideoResponse
     \<and> downloadVideo exampleEnv (vg_videoUrl exampleVideoResponse) = Inr [1, 2, 3]
     \<and> uploadVideo exampleEnv [1, 2, 3] (uuidv4 exampleEnv) (cn_id exampleNiche)
         = Inr (''https://store/video-1.mp4'', ''videos/video-1.mp4'')"
    by (simp add: exampleEnv_def examplePrompt_def exampleVideoResponse_def)
  note t = retry_semantics [where w = failedWorld and jobId = "''job-0''" and env = exampleEnv
      and schedule = "[]" and job = "exampleJob\<lparr>wj_id := ''job-0'', wj_status := job_failed\<rparr>"
      and niche = exampleNiche and topics = "[exampleTopic]" and pr = examplePrompt
      and vr = exampleVideoResponse and buf = "[1, 2, 3]"
      and url = "''https://store/video-1.mp4''" and path = "''videos/video-1.mp4''"]
  from t pre ok have c: "snd (retryFailedJob exampleEnv [] ''job-0'' failedWorld) = Inr ()
     \<and> jobLog (fst (retryFailedJob exampleEnv [] ''job-0'' failedWorld)) =
         jobLog failedWorld @ [(newJobId exampleEnv, job_queued), (newJobId exampleEnv, job_running),
                     (newJobId exampleEnv, job_completed)]
     \<and> jobs (fst (retryFailedJob exampleEnv [] ''job-0'' failedWorld)) =
         (jobs failedWorld)(newJobId exampleEnv \<mapsto> completedJob exampleEnv exampleNiche)
     \<and> (\<exists>added. videos (fst (retryFailedJob exampleEnv [] ''job-0'' failedWorld)) (uuidv4 exampleEnv) =
           Some ((readyVideo exampleEnv exampleNiche examplePrompt exampleVideoResponse
                    ''https://store/video-1.mp4'' ''videos/video-1.mp4'')
                   \<lparr>vm_platforms := added, vm_status := video_posted\<rparr>))"
    by blast
  have lg: "jobLog failedWorld = []"
    by (simp add: failedWorld_def emptyWorld_def)
  from a b c show ?thesis
    unfolding ids lg exampleVideo_def by simp
qed

lemma example_schedules:
  "youtubeBeforeTikTok ([] @ settleOrder)"
  "tiktokBeforeYouTube ([tiktok, tiktok, tiktok] @ settleOrder)"
  by code_simp+

theorem partial_failure_isolation_witness:
  "snd (generateAndPostVideo exampleEnv [] exampleNiche emptyWorld) = Inr ''video-1''
   \<and> (\<exists>job. jobs (fst (generateAndPostVideo exampleEnv [] exampleNiche emptyWorld)) ''job-1'' = Some job
         \<and> wj_status job = job_completed)
   \<and> (\<exists>v. videos (fst (generateAndPostVideo exampleEnv [] exampleNiche emptyWorld)) ''video-1'' = Some v
         \<and> vm_platforms v = [youtubePost exampleEnv ''yt-1'', tiktokPost exampleEnv ''tt-1''])
   \<and> (\<exists>v. videos (fst (generateAndPostVideo exampleEnv [tiktok, tiktok, tiktok] exampleNiche emptyWorld))
           ''video-1'' = Some v
         \<and> vm_platforms v = [tiktokPost exampleEnv ''tt-1'', youtubePost exampleEnv ''yt-1''])"
proof -
  have faults: "\<forall>c. dbFault exampleEnv c = None"
    by (simp add: exampleEnv_def)
  have topics: "getTrendingForNiche exampleEnv (cn_name exampleNiche) (cn_keywords exampleNiche)
      = Inr [exampleTopic]"
    by (simp add: exampleEnv_def)
  have prompt: "generatePrompt exampleEnv (promptRequest exampleEnv exampleNiche [exampleTopic] emptyWorld)
      = Inr examplePrompt"
    by (simp add: exampleEnv_def examplePrompt_def)
  have video: "generateVideo exampleEnv
      \<lparr>vr_prompt = pg_prompt examplePrompt, vr_niche = cn_id exampleNiche\<rparr> = Inr exampleVideoResponse"
    by (simp add: exampleEnv_def exampleVideoResponse_def)
  have download: "downloadVideo exampleEnv (vg_videoUrl exampleVideoResponse) = Inr [1, 2, 3]"
    by (simp add: exampleEnv_def)
  have upload: "uploadVideo exampleEnv [1, 2, 3] (uuidv4 exampleEnv) (cn_id exampleNiche)
      = Inr (''https://store/video-1.mp4'', ''videos/video-1.mp4'')"
    by (simp add: exampleEnv_def)
  have yt: "sa_youtube (cn_socialAccounts exampleNiche) = Some \<lparr>channelId = ''chan'', refreshToken = ''refresh''\<rparr>"
    "setCredentials exampleEnv (refreshToken \<lparr>channelId = ''chan'', refreshToken = ''refresh''\<rparr>) = Inr ()"
    "uploadShortFromBuffer exampleEnv [1, 2, 3] (generateTitle (pg_description examplePrompt))
       (pg_description examplePrompt) (pg_suggestedHashtags examplePrompt) = Inr ''yt-1''"
    by (simp_all add: exampleEnv_def exampleNiche_def)
  have ig: "sa_instagram (cn_socialAccounts exampleNiche)
        = Some \<lparr>accountId = ''acct'', ig_accessToken = ''ig-token''\<rparr>"
    "postReel exampleEnv (ig_accessToken \<lparr>accountId = ''acct'', ig_accessToken = ''ig-token''\<rparr>)
       (accountId \<lparr>accountId = ''acct'', ig_accessToken = ''ig-token''\<rparr>) ''https://store/video-1.mp4''
       (pg_description examplePrompt @ [CHR 0x0A, CHR 0x0A] @ hashtagLine (pg_suggestedHashtags examplePrompt))
       = Inl (Error ''Instagram API error'')"
    by (simp_all add: exampleEnv_def exampleNiche_def)
  have tt: "tiktokToken exampleNiche = Some ''tt-token''" "''tt-token'' \<noteq> []"
    "postVideo exampleEnv ''tt-token'' [1, 2, 3]
       (pg_description examplePrompt @ '' '' @ hashtagLine (pg_suggestedHashtags examplePrompt)) = Inr ''tt-1''"
    by (simp_all add: exampleEnv_def exampleNiche_def tiktokToken_def)
  note t = partial_failure_isolation [OF faults topics prompt video download upload yt ig tt]
  have ids: "uuidv4 exampleEnv = ''video-1''" "newJobId exampleEnv = ''job-1''"
    by (simp_all add: exampleEnv_def)
  from t[of "[]"] example_schedules(1) t[of "[tiktok, tiktok, tiktok]"] example_schedules(2)
  show ?thesis
    unfolding ids by blast
qed

theorem fanout_appends_posted_entries_witness:
  "\<exists>added.
      videos (postToAllPlatforms exampleEnv raceSchedule ''video-1'' [1, 2, 3] ''Rise and shine. Every day''
                [''motivation''] exampleNiche exampleStore) ''video-1''
        = Some (exampleVideo\<lparr>vm_platforms := vm_platforms exampleVideo @ added\<rparr>)
      \<and> list_all (\<lambda>pp. postedEntry pp
            \<and> attemptSucceeds exampleEnv [1, 2, 3] ''Rise and shine. Every day'' [''motivation'']
                 exampleNiche (vm_videoUrl exampleVideo) (pp_platform pp)) added"
proof -
  have a: "videos exampleStore ''video-1'' = Some exampleVideo"
    by (simp add: exampleStore_def)
  have b: "vm_id exampleVideo = ''video-1''"
    by (simp add: exampleVideo_def readyVideo_def exampleEnv_def)
  from a b show ?thesis by (rule fanout_appends_posted_entries)
qed

end
